theory Spec2Isabelle
  imports Main "HOL-Library.Word"
begin

unbundle bit_operations_syntax

section \<open>Python values: errors, byte buffers, lists\<close>

text \<open>
  The emulator is Python: integers are unbounded (\<open>int\<close>), \<open>bytes\<close> and \<open>bytearray\<close>
  hold bytes (\<open>8 word\<close>, read back as an \<open>int\<close> in 0..255), and an index out of range
  raises. Every raise is a value \<open>Inl e\<close> of the result type.
\<close>

datatype py_error = IndexError | ValueError | AssertionError

type_synonym byte = "8 word"

definition py_index :: "nat \<Rightarrow> int \<Rightarrow> nat option" where
  \<comment> \<open>Python's index rule: a negative index counts from the end.\<close>
  "py_index n i =
     (let j = (if i < 0 then int n + i else i)
      in if 0 \<le> j \<and> j < int n then Some (nat j) else None)"

definition ba_get :: "byte list \<Rightarrow> int \<Rightarrow> py_error + int" where
  "ba_get xs i = (case py_index (length xs) i of None \<Rightarrow> Inl IndexError | Some j \<Rightarrow> Inr (uint (xs ! j)))"

definition ba_set :: "byte list \<Rightarrow> int \<Rightarrow> int \<Rightarrow> py_error + byte list" where
  \<comment> \<open>A bytearray store: the value must be in range(256).\<close>
  "ba_set xs i v =
     (case py_index (length xs) i of
        None \<Rightarrow> Inl IndexError
      | Some j \<Rightarrow> if 0 \<le> v \<and> v \<le> 255 then Inr (xs[j := word_of_int v]) else Inl ValueError)"

definition py_get :: "'a list \<Rightarrow> int \<Rightarrow> py_error + 'a" where
  "py_get xs i = (case py_index (length xs) i of None \<Rightarrow> Inl IndexError | Some j \<Rightarrow> Inr (xs ! j))"

definition py_slice :: "'a list \<Rightarrow> nat \<Rightarrow> nat \<Rightarrow> 'a list" where
  \<comment> \<open>\<open>xs[a:b]\<close> for non-negative bounds.\<close>
  "py_slice xs a b = take (b - a) (drop a xs)"

section \<open>Tile decoding\<close>

text \<open>
  \<open>decode_tile_8x8\<close> (v1.1) and \<open>decode_tile\<close> (v1.0): two bit planes of eight bytes, one
  byte per row; the loops fill an 8 by 8 matrix of zeros in place.
\<close>

definition tile_pixel :: "int \<Rightarrow> int \<Rightarrow> nat \<Rightarrow> int" where
  "tile_pixel b0 b1 x =
     (let bit = 7 - x;
          v0 = (drop_bit bit b0) AND 1;
          v1 = (drop_bit bit b1) AND 1
      in (push_bit 1 v1) OR v0)"

definition decode_row :: "int \<Rightarrow> int \<Rightarrow> int list \<Rightarrow> int list" where
  \<comment> \<open>the loop over \<open>x\<close>\<close>
  "decode_row b0 b1 r = fold (\<lambda>x r. r[x := tile_pixel b0 b1 x]) [0..<8] r"

primrec decode_rows :: "nat list \<Rightarrow> byte list \<Rightarrow> byte list \<Rightarrow> int list list \<Rightarrow> py_error + int list list" where
  \<comment> \<open>the loop over \<open>y\<close>\<close>
  "decode_rows [] plane0 plane1 pixels = Inr pixels"
| "decode_rows (y # ys) plane0 plane1 pixels =
     (case ba_get plane0 (int y) of
        Inl e \<Rightarrow> Inl e
      | Inr b0 \<Rightarrow>
          (case ba_get plane1 (int y) of
             Inl e \<Rightarrow> Inl e
           | Inr b1 \<Rightarrow> decode_rows ys plane0 plane1 (pixels[y := decode_row b0 b1 (pixels ! y)])))"

definition decode_tile_8x8 :: "byte list \<Rightarrow> py_error + int list list" where
  "decode_tile_8x8 tile_bytes =
     (let plane0 = py_slice tile_bytes 0 8;
          plane1 = py_slice tile_bytes 8 16
      in decode_rows [0..<8] plane0 plane1 (replicate 8 (replicate 8 0)))"

definition decode_tile :: "byte list \<Rightarrow> py_error + int list list" where
  \<comment> \<open>v1.0: the same loops behind \<open>assert len(tile_bytes) == 16\<close>\<close>
  "decode_tile tile_bytes =
     (if length tile_bytes \<noteq> 16 then Inl AssertionError
      else let plane0 = py_slice tile_bytes 0 8;
               plane1 = py_slice tile_bytes 8 16
           in decode_rows [0..<8] plane0 plane1 (replicate 8 (replicate 8 0)))"

section \<open>The iNES loader\<close>

text \<open>
  \<open>INESRom._load\<close>. The file is the list of its bytes; \<open>f.read(n)\<close> returns at most
  \<open>n\<close> bytes and moves on, so a short file gives short images, not an error. The two
  versions differ in the fields they keep (v1.0 also stores the trainer, battery and
  four-screen bits, which nothing reads) and in the message of the error.
\<close>

datatype mirroring_mode = Horizontal | Vertical

record INESRom =
  prg_rom :: "byte list"
  chr_rom :: "byte list"
  mapper :: int
  mirroring :: mirroring_mode
  prg_banks :: int
  chr_banks :: int
  trainer_present :: bool

definition ines_magic :: "byte list" where
  \<comment> \<open>\<open>b"NES\x1a"\<close>\<close>
  "ines_magic = [0x4E, 0x45, 0x53, 0x1A]"

definition read_images :: "byte list \<Rightarrow> INESRom" where
  \<comment> \<open>the part of \<open>_load\<close> after the signature check, on a file of at least 16 bytes\<close>
  "read_images file =
     (let header = take 16 file;
          prg_banks = uint (header ! 4);
          chr_banks = uint (header ! 5);
          flags6 = uint (header ! 6);
          flags7 = uint (header ! 7);
          trainer = (flags6 AND 0x04 \<noteq> 0);
          f1 = drop 16 file;
          f2 = (if trainer then drop 512 f1 else f1);
          prg_size = nat (prg_banks * 16 * 1024);
          f3 = drop prg_size f2
      in \<lparr> prg_rom = take prg_size f2,
           chr_rom = (if chr_banks > 0 then take (nat (chr_banks * 8 * 1024)) f3 else []),
           mapper = (push_bit 4 (drop_bit 4 flags7)) OR (drop_bit 4 flags6),
           mirroring = (if flags6 AND 1 \<noteq> 0 then Vertical else Horizontal),
           prg_banks = prg_banks,
           chr_banks = chr_banks,
           trainer_present = trainer \<rparr>)"

definition INESRom_load :: "byte list \<Rightarrow> py_error + INESRom" where
  \<comment> \<open>v1.1\<close>
  "INESRom_load file =
     (let header = take 16 file
      in if length header < 16 \<or> py_slice header 0 4 \<noteq> ines_magic then Inl ValueError
         else Inr (read_images file))"

definition INESRom_load_v10 :: "byte list \<Rightarrow> py_error + INESRom" where
  \<comment> \<open>v1.0: two checks, two messages\<close>
  "INESRom_load_v10 file =
     (let header = take 16 file
      in if length header < 16 then Inl ValueError
         else if py_slice header 0 4 \<noteq> ines_magic then Inl ValueError
         else Inr (read_images file))"

section \<open>The PPU address space\<close>

record PPU =
  ppu_chr :: "byte list"
  ppu_vram :: "byte list"
  ppu_palette :: "byte list"
  ppu_oam :: "byte list"
  nmi_output :: bool
  frame_count :: int

definition PPU_init :: "INESRom \<Rightarrow> byte list option \<Rightarrow> PPU" where
  "PPU_init rom chr_data =
     \<lparr> ppu_chr = (case chr_data of
                    Some d \<Rightarrow> d
                  | None \<Rightarrow> if length (chr_rom rom) = 0 then replicate (8 * 1024) 0 else chr_rom rom),
       ppu_vram = replicate (2 * 1024) 0,
       ppu_palette = replicate 32 0,
       ppu_oam = replicate 256 0,
       nmi_output = False,
       frame_count = 0 \<rparr>"

definition bnd :: "('e + 'a) \<Rightarrow> ('a \<Rightarrow> 'e + 'b) \<Rightarrow> 'e + 'b" where
  \<comment> \<open>sequencing: an exception of the first part ends the whole\<close>
  "bnd m f = (case m of Inl e \<Rightarrow> Inl e | Inr v \<Rightarrow> f v)"

definition PPU_read :: "PPU \<Rightarrow> int \<Rightarrow> py_error + int" where
  "PPU_read p addr0 =
     (let addr = addr0 AND 0x3FFF
      in if addr < 0x2000 then ba_get (ppu_chr p) addr
         else if 0x2000 \<le> addr \<and> addr < 0x3F00 then
           (let nt_index = (addr - 0x2000) AND 0x07FF in ba_get (ppu_vram p) nt_index)
         else
           (let pa = (addr - 0x3F00) mod 32 in ba_get (ppu_palette p) pa))"

definition PPU_write :: "PPU \<Rightarrow> int \<Rightarrow> int \<Rightarrow> py_error + PPU" where
  "PPU_write p addr0 val0 =
     (let addr = addr0 AND 0x3FFF;
          val = val0 AND 0xFF
      in if addr < 0x2000 then
           bnd (ba_set (ppu_chr p) addr val) (\<lambda>c. Inr (p\<lparr>ppu_chr := c\<rparr>))
         else if 0x2000 \<le> addr \<and> addr < 0x3F00 then
           (let nt_index = (addr - 0x2000) AND 0x07FF
            in bnd (ba_set (ppu_vram p) nt_index val) (\<lambda>v. Inr (p\<lparr>ppu_vram := v\<rparr>)))
         else
           (let pa = (addr - 0x3F00) mod 32
            in bnd (ba_set (ppu_palette p) pa val) (\<lambda>c. Inr (p\<lparr>ppu_palette := c\<rparr>))))"

section \<open>The machine: memory map and controllers\<close>

record CPU6502 =
  cpu_A :: int
  cpu_X :: int
  cpu_Y :: int
  cpu_PC :: int
  cpu_SP :: int
  cpu_P :: int
  cpu_cycles :: int

record NES =
  rom :: INESRom
  ram :: "byte list"
  sram :: "byte list"
  prg :: "byte list"
  ppu :: PPU
  controller_state :: "int list"
  controller_shift :: "int list"
  controller_strobe :: int
  cpu :: CPU6502
  nmi_pending :: bool

definition py_set :: "'a list \<Rightarrow> int \<Rightarrow> 'a \<Rightarrow> py_error + 'a list" where
  "py_set xs i v = (case py_index (length xs) i of None \<Rightarrow> Inl IndexError | Some j \<Rightarrow> Inr (xs[j := v]))"

definition cpu_read :: "NES \<Rightarrow> int \<Rightarrow> py_error + (int \<times> NES)" where
  "cpu_read s addr0 =
     (let addr = addr0 AND 0xFFFF
      in if 0x0000 \<le> addr \<and> addr \<le> 0x1FFF then
           bnd (ba_get (ram s) (addr AND 0x07FF)) (\<lambda>v. Inr (v, s))
         else if 0x2000 \<le> addr \<and> addr \<le> 0x3FFF then Inr (0, s)
         else if 0x4000 \<le> addr \<and> addr \<le> 0x401F then
           (if addr = 0x4016 \<or> addr = 0x4017 then
              (let idx = (if addr = 0x4016 then 0 else 1)
               in bnd (py_get (controller_shift s) idx) (\<lambda>sh.
                    let val = sh AND 1
                    in bnd (py_set (controller_shift s) idx (drop_bit 1 sh)) (\<lambda>cs.
                         Inr (val OR 0x40, s\<lparr>controller_shift := cs\<rparr>))))
            else Inr (0, s))
         else if 0x6000 \<le> addr \<and> addr \<le> 0x7FFF then
           bnd (ba_get (sram s) (addr - 0x6000)) (\<lambda>v. Inr (v, s))
         else if 0x8000 \<le> addr \<and> addr \<le> 0xFFFF then
           (if prg_banks (rom s) = 1 then
              (let offset = (addr - 0x8000) mod (16 * 1024)
               in bnd (ba_get (prg s) offset) (\<lambda>v. Inr (v, s)))
            else
              (let offset = addr - 0x8000
               in bnd (ba_get (prg s) offset) (\<lambda>v. Inr (v, s))))
         else Inr (0, s))"

primrec oam_dma :: "nat list \<Rightarrow> int \<Rightarrow> NES \<Rightarrow> py_error + NES" where
  \<comment> \<open>\<open>for i in range(256): self.ppu.oam[i] = self.cpu_read(base + i)\<close>\<close>
  "oam_dma [] base s = Inr s"
| "oam_dma (i # is) base s =
     bnd (cpu_read s (base + int i)) (\<lambda>(v, s).
       bnd (ba_set (ppu_oam (ppu s)) (int i) v) (\<lambda>oam.
         oam_dma is base (s\<lparr>ppu := (ppu s)\<lparr>ppu_oam := oam\<rparr>\<rparr>)))"

definition cpu_write :: "NES \<Rightarrow> int \<Rightarrow> int \<Rightarrow> py_error + NES" where
  "cpu_write s addr0 val0 =
     (let addr = addr0 AND 0xFFFF;
          val = val0 AND 0xFF
      in if 0x0000 \<le> addr \<and> addr \<le> 0x1FFF then
           bnd (ba_set (ram s) (addr AND 0x07FF) val) (\<lambda>r. Inr (s\<lparr>ram := r\<rparr>))
         else if 0x2000 \<le> addr \<and> addr \<le> 0x3FFF then Inr s
         else if 0x4000 \<le> addr \<and> addr \<le> 0x401F then
           (if addr = 0x4014 then
              (let page = val; base = page * 0x100 in oam_dma [0..<256] base s)
            else if addr = 0x4016 then
              (let s = s\<lparr>controller_strobe := val AND 1\<rparr>
               in if controller_strobe s \<noteq> 0 then
                    bnd (py_get (controller_state s) 0) (\<lambda>c0.
                      bnd (py_set (controller_shift s) 0 c0) (\<lambda>sh.
                        bnd (py_get (controller_state s) 1) (\<lambda>c1.
                          bnd (py_set sh 1 c1) (\<lambda>sh.
                            Inr (s\<lparr>controller_shift := sh\<rparr>)))))
                  else Inr s)
            else Inr s)
         else if 0x6000 \<le> addr \<and> addr \<le> 0x7FFF then
           bnd (ba_set (sram s) (addr - 0x6000) val) (\<lambda>r. Inr (s\<lparr>sram := r\<rparr>))
         else if 0x8000 \<le> addr \<and> addr \<le> 0xFFFF then Inr s
         else Inr s)"

section \<open>The CPU\<close>

definition FLAG_N :: int where "FLAG_N = 0x80"
definition FLAG_V :: int where "FLAG_V = 0x40"
definition FLAG_B :: int where "FLAG_B = 0x10"
definition FLAG_D :: int where "FLAG_D = 0x08"
definition FLAG_I :: int where "FLAG_I = 0x04"
definition FLAG_Z :: int where "FLAG_Z = 0x02"
definition FLAG_C :: int where "FLAG_C = 0x01"

text \<open>Assignments to the registers of \<open>self.cpu\<close>.\<close>

definition set_A :: "int \<Rightarrow> NES \<Rightarrow> NES" where
  "set_A v s = s\<lparr>cpu := (cpu s)\<lparr>cpu_A := v\<rparr>\<rparr>"
definition set_X :: "int \<Rightarrow> NES \<Rightarrow> NES" where
  "set_X v s = s\<lparr>cpu := (cpu s)\<lparr>cpu_X := v\<rparr>\<rparr>"
definition set_Y :: "int \<Rightarrow> NES \<Rightarrow> NES" where
  "set_Y v s = s\<lparr>cpu := (cpu s)\<lparr>cpu_Y := v\<rparr>\<rparr>"
definition set_PC :: "int \<Rightarrow> NES \<Rightarrow> NES" where
  "set_PC v s = s\<lparr>cpu := (cpu s)\<lparr>cpu_PC := v\<rparr>\<rparr>"
definition set_SP :: "int \<Rightarrow> NES \<Rightarrow> NES" where
  "set_SP v s = s\<lparr>cpu := (cpu s)\<lparr>cpu_SP := v\<rparr>\<rparr>"
definition set_P :: "int \<Rightarrow> NES \<Rightarrow> NES" where
  "set_P v s = s\<lparr>cpu := (cpu s)\<lparr>cpu_P := v\<rparr>\<rparr>"

definition tick :: "int \<Rightarrow> NES \<Rightarrow> py_error + (int \<times> NES)" where
  \<comment> \<open>\<open>self.cycles += n; return n\<close>\<close>
  "tick n s = Inr (n, s\<lparr>cpu := (cpu s)\<lparr>cpu_cycles := cpu_cycles (cpu s) + n\<rparr>\<rparr>)"

definition set_flag :: "int \<Rightarrow> bool \<Rightarrow> NES \<Rightarrow> NES" where
  "set_flag msk v s =
     (if v then set_P (cpu_P (cpu s) OR msk) s
      else set_P (cpu_P (cpu s) AND ((NOT msk) AND 0xFF)) s)"

definition get_flag :: "int \<Rightarrow> NES \<Rightarrow> bool" where
  "get_flag msk s = (cpu_P (cpu s) AND msk \<noteq> 0)"

definition push :: "NES \<Rightarrow> int \<Rightarrow> py_error + NES" where
  "push s val =
     bnd (cpu_write s (0x100 + cpu_SP (cpu s)) (val AND 0xFF)) (\<lambda>s.
       Inr (set_SP ((cpu_SP (cpu s) - 1) AND 0xFF) s))"

definition pop :: "NES \<Rightarrow> py_error + (int \<times> NES)" where
  "pop s =
     (let s = set_SP ((cpu_SP (cpu s) + 1) AND 0xFF) s
      in cpu_read s (0x100 + cpu_SP (cpu s)))"

definition fetch_byte :: "NES \<Rightarrow> py_error + (int \<times> NES)" where
  "fetch_byte s =
     bnd (cpu_read s (cpu_PC (cpu s))) (\<lambda>(b, s).
       Inr (b, set_PC ((cpu_PC (cpu s) + 1) AND 0xFFFF) s))"

definition fetch_word :: "NES \<Rightarrow> py_error + (int \<times> NES)" where
  "fetch_word s =
     bnd (fetch_byte s) (\<lambda>(lo, s).
       bnd (fetch_byte s) (\<lambda>(hi, s).
         Inr (lo OR (push_bit 8 hi), s)))"

definition reset :: "NES \<Rightarrow> py_error + NES" where
  "reset s =
     bnd (cpu_read s 0xFFFC) (\<lambda>(lo, s).
       bnd (cpu_read s 0xFFFD) (\<lambda>(hi, s).
         Inr (set_P 0x24 (set_SP 0xFD (set_PC (lo OR (push_bit 8 hi)) s)))))"

definition update_zn :: "int \<Rightarrow> NES \<Rightarrow> NES" where
  "update_zn val s =
     set_flag FLAG_N ((val AND 0x80) \<noteq> 0) (set_flag FLAG_Z ((val AND 0xFF) = 0) s)"

definition read_addr :: "NES \<Rightarrow> int \<Rightarrow> py_error + (int \<times> NES)" where
  "read_addr s addr = cpu_read s (addr AND 0xFFFF)"

definition write_addr :: "NES \<Rightarrow> int \<Rightarrow> int \<Rightarrow> py_error + NES" where
  "write_addr s addr val = cpu_write s (addr AND 0xFFFF) (val AND 0xFF)"

text \<open>The addressing-mode helpers that \<open>step\<close> calls (the others it spells out inline).\<close>

definition am_immediate :: "NES \<Rightarrow> py_error + (int \<times> NES)" where
  "am_immediate s =
     (let addr = cpu_PC (cpu s)
      in Inr (addr, set_PC ((cpu_PC (cpu s) + 1) AND 0xFFFF) s))"

definition am_zeropage :: "NES \<Rightarrow> py_error + (int \<times> NES)" where
  "am_zeropage s = fetch_byte s"

definition am_zeropage_x :: "NES \<Rightarrow> py_error + (int \<times> NES)" where
  "am_zeropage_x s = bnd (fetch_byte s) (\<lambda>(b, s). Inr ((b + cpu_X (cpu s)) AND 0xFF, s))"

definition am_absolute :: "NES \<Rightarrow> py_error + (int \<times> NES)" where
  "am_absolute s = fetch_word s"

definition am_relative :: "NES \<Rightarrow> py_error + (int \<times> NES)" where
  "am_relative s =
     bnd (fetch_byte s) (\<lambda>(offset, s).
       if offset < 0x80 then Inr ((cpu_PC (cpu s) + offset) AND 0xFFFF, s)
       else Inr ((cpu_PC (cpu s) + offset - 0x100) AND 0xFFFF, s))"

text \<open>
  \<open>CPU6502.step\<close>: one chain of tests on the opcode, in the order of the source; an opcode
  that no test matches reaches the fallback at the end.
\<close>

definition exec_opcode :: "int \<Rightarrow> NES \<Rightarrow> py_error + (int \<times> NES)" where
  "exec_opcode opcode s =
     (if opcode = 0xEA then \<comment> \<open>NOP\<close>
         tick 2 s
      else if opcode = 0xA9 then \<comment> \<open>LDA immediate\<close>
         bnd (am_immediate s) (\<lambda>(addr, s). bnd (read_addr s addr) (\<lambda>(val, s).
           tick 2 (update_zn val (set_A val s))))
      else if opcode = 0xA5 then \<comment> \<open>LDA zp\<close>
         bnd (am_zeropage s) (\<lambda>(addr, s). bnd (read_addr s addr) (\<lambda>(val, s).
           tick 3 (update_zn val (set_A val s))))
      else if opcode = 0xB5 then \<comment> \<open>LDA zp,X\<close>
         bnd (am_zeropage_x s) (\<lambda>(addr, s). bnd (read_addr s addr) (\<lambda>(val, s).
           tick 4 (update_zn val (set_A val s))))
      else if opcode = 0xAD then \<comment> \<open>LDA abs\<close>
         bnd (am_absolute s) (\<lambda>(addr, s). bnd (read_addr s addr) (\<lambda>(val, s).
           tick 4 (update_zn val (set_A val s))))
      else if opcode = 0xBD then \<comment> \<open>LDA abs,X\<close>
         bnd (fetch_word s) (\<lambda>(base, s).
           let addr = (base + cpu_X (cpu s)) AND 0xFFFF
           in bnd (read_addr s addr) (\<lambda>(val, s). tick 4 (update_zn val (set_A val s))))
      else if opcode = 0xB9 then \<comment> \<open>LDA abs,Y\<close>
         bnd (fetch_word s) (\<lambda>(base, s).
           let addr = (base + cpu_Y (cpu s)) AND 0xFFFF
           in bnd (read_addr s addr) (\<lambda>(val, s). tick 4 (update_zn val (set_A val s))))
      else if opcode = 0xA1 then \<comment> \<open>LDA (zp,X)\<close>
         bnd (fetch_byte s) (\<lambda>(b, s).
           let zp = (b + cpu_X (cpu s)) AND 0xFF
           in bnd (read_addr s zp) (\<lambda>(lo, s). bnd (read_addr s ((zp + 1) AND 0xFF)) (\<lambda>(hi, s).
                let addr = (push_bit 8 hi) OR lo
                in bnd (read_addr s addr) (\<lambda>(val, s). tick 6 (update_zn val (set_A val s))))))
      else if opcode = 0xB1 then \<comment> \<open>LDA (zp),Y\<close>
         bnd (fetch_byte s) (\<lambda>(zp, s).
           bnd (read_addr s zp) (\<lambda>(lo, s). bnd (read_addr s ((zp + 1) AND 0xFF)) (\<lambda>(hi, s).
             let base = (push_bit 8 hi) OR lo;
                 addr = (base + cpu_Y (cpu s)) AND 0xFFFF
             in bnd (read_addr s addr) (\<lambda>(val, s). tick 5 (update_zn val (set_A val s))))))
      else if opcode = 0x85 then \<comment> \<open>STA zp\<close>
         bnd (am_zeropage s) (\<lambda>(addr, s). bnd (write_addr s addr (cpu_A (cpu s))) (\<lambda>s. tick 3 s))
      else if opcode = 0x8D then \<comment> \<open>STA abs\<close>
         bnd (am_absolute s) (\<lambda>(addr, s). bnd (write_addr s addr (cpu_A (cpu s))) (\<lambda>s. tick 4 s))
      else if opcode = 0x95 then \<comment> \<open>STA zp,X\<close>
         bnd (am_zeropage_x s) (\<lambda>(addr, s). bnd (write_addr s addr (cpu_A (cpu s))) (\<lambda>s. tick 4 s))
      else if opcode = 0x9D then \<comment> \<open>STA abs,X\<close>
         bnd (fetch_word s) (\<lambda>(base, s).
           let addr = (base + cpu_X (cpu s)) AND 0xFFFF
           in bnd (write_addr s addr (cpu_A (cpu s))) (\<lambda>s. tick 5 s))
      else if opcode = 0x99 then \<comment> \<open>STA abs,Y\<close>
         bnd (fetch_word s) (\<lambda>(base, s).
           let addr = (base + cpu_Y (cpu s)) AND 0xFFFF
           in bnd (write_addr s addr (cpu_A (cpu s))) (\<lambda>s. tick 5 s))
      else if opcode = 0x81 then \<comment> \<open>STA (zp,X)\<close>
         bnd (fetch_byte s) (\<lambda>(b, s).
           let zp = (b + cpu_X (cpu s)) AND 0xFF
           in bnd (read_addr s zp) (\<lambda>(lo, s). bnd (read_addr s ((zp + 1) AND 0xFF)) (\<lambda>(hi, s).
                let addr = (push_bit 8 hi) OR lo
                in bnd (write_addr s addr (cpu_A (cpu s))) (\<lambda>s. tick 6 s))))
      else if opcode = 0x91 then \<comment> \<open>STA (zp),Y\<close>
         bnd (fetch_byte s) (\<lambda>(zp, s).
           bnd (read_addr s zp) (\<lambda>(lo, s). bnd (read_addr s ((zp + 1) AND 0xFF)) (\<lambda>(hi, s).
             let base = (push_bit 8 hi) OR lo;
                 addr = (base + cpu_Y (cpu s)) AND 0xFFFF
             in bnd (write_addr s addr (cpu_A (cpu s))) (\<lambda>s. tick 6 s))))
      else if opcode = 0xAA then \<comment> \<open>TAX\<close>
         (let s = set_X (cpu_A (cpu s)) s in tick 2 (update_zn (cpu_X (cpu s)) s))
      else if opcode = 0xA8 then \<comment> \<open>TAY\<close>
         (let s = set_Y (cpu_A (cpu s)) s in tick 2 (update_zn (cpu_Y (cpu s)) s))
      else if opcode = 0x8A then \<comment> \<open>TXA\<close>
         (let s = set_A (cpu_X (cpu s)) s in tick 2 (update_zn (cpu_A (cpu s)) s))
      else if opcode = 0x98 then \<comment> \<open>TYA\<close>
         (let s = set_A (cpu_Y (cpu s)) s in tick 2 (update_zn (cpu_A (cpu s)) s))
      else if opcode = 0xE8 then \<comment> \<open>INX\<close>
         (let s = set_X ((cpu_X (cpu s) + 1) AND 0xFF) s in tick 2 (update_zn (cpu_X (cpu s)) s))
      else if opcode = 0xC8 then \<comment> \<open>INY\<close>
         (let s = set_Y ((cpu_Y (cpu s) + 1) AND 0xFF) s in tick 2 (update_zn (cpu_Y (cpu s)) s))
      else if opcode = 0xCA then \<comment> \<open>DEX\<close>
         (let s = set_X ((cpu_X (cpu s) - 1) AND 0xFF) s in tick 2 (update_zn (cpu_X (cpu s)) s))
      else if opcode = 0x88 then \<comment> \<open>DEY\<close>
         (let s = set_Y ((cpu_Y (cpu s) - 1) AND 0xFF) s in tick 2 (update_zn (cpu_Y (cpu s)) s))
      else if opcode = 0x69 then \<comment> \<open>ADC immediate\<close>
         bnd (fetch_byte s) (\<lambda>(val, s).
           let carry = (if get_flag FLAG_C s then 1 else 0);
               result = cpu_A (cpu s) + val + carry;
               s = set_flag FLAG_C (result > 0xFF) s;
               s = set_flag FLAG_V (((NOT (cpu_A (cpu s) XOR val)) AND (cpu_A (cpu s) XOR result) AND 0x80) \<noteq> 0) s;
               s = set_A (result AND 0xFF) s
           in tick 2 (update_zn (cpu_A (cpu s)) s))
      else if opcode = 0x65 then \<comment> \<open>ADC zp\<close>
         bnd (am_zeropage s) (\<lambda>(addr, s). bnd (read_addr s addr) (\<lambda>(val, s).
           let carry = (if get_flag FLAG_C s then 1 else 0);
               result = cpu_A (cpu s) + val + carry;
               s = set_flag FLAG_C (result > 0xFF) s;
               s = set_flag FLAG_V (((NOT (cpu_A (cpu s) XOR val)) AND (cpu_A (cpu s) XOR result) AND 0x80) \<noteq> 0) s;
               s = set_A (result AND 0xFF) s
           in tick 3 (update_zn (cpu_A (cpu s)) s)))
      else if opcode = 0xD0 then \<comment> \<open>BNE\<close>
         bnd (am_relative s) (\<lambda>(addr, s).
           if \<not> get_flag FLAG_Z s then tick 3 (set_PC addr s) else tick 2 s)
      else if opcode = 0xF0 then \<comment> \<open>BEQ\<close>
         bnd (am_relative s) (\<lambda>(addr, s).
           if get_flag FLAG_Z s then tick 3 (set_PC addr s) else tick 2 s)
      else if opcode = 0x90 then \<comment> \<open>BCC\<close>
         bnd (am_relative s) (\<lambda>(addr, s).
           if \<not> get_flag FLAG_C s then tick 3 (set_PC addr s) else tick 2 s)
      else if opcode = 0xB0 then \<comment> \<open>BCS\<close>
         bnd (am_relative s) (\<lambda>(addr, s).
           if get_flag FLAG_C s then tick 3 (set_PC addr s) else tick 2 s)
      else if opcode = 0x4C then \<comment> \<open>JMP abs\<close>
         bnd (fetch_word s) (\<lambda>(addr, s). tick 3 (set_PC addr s))
      else if opcode = 0x6C then \<comment> \<open>JMP (ind)\<close>
         bnd (fetch_word s) (\<lambda>(ptr, s).
           if (ptr AND 0xFF) = 0xFF then
             bnd (read_addr s ptr) (\<lambda>(lo, s). bnd (read_addr s (ptr AND 0xFF00)) (\<lambda>(hi, s).
               tick 5 (set_PC ((push_bit 8 hi) OR lo) s)))
           else
             bnd (read_addr s ptr) (\<lambda>(lo, s). bnd (read_addr s (ptr + 1)) (\<lambda>(hi, s).
               tick 5 (set_PC ((push_bit 8 hi) OR lo) s))))
      else if opcode = 0x20 then \<comment> \<open>JSR\<close>
         bnd (fetch_word s) (\<lambda>(addr, s).
           let ret = (cpu_PC (cpu s) - 1) AND 0xFFFF
           in bnd (push s ((drop_bit 8 ret) AND 0xFF)) (\<lambda>s. bnd (push s (ret AND 0xFF)) (\<lambda>s.
                tick 6 (set_PC addr s))))
      else if opcode = 0x60 then \<comment> \<open>RTS\<close>
         bnd (pop s) (\<lambda>(lo, s). bnd (pop s) (\<lambda>(hi, s).
           tick 6 (set_PC ((((push_bit 8 hi) OR lo)) + 1) s)))
      else if opcode = 0x00 then \<comment> \<open>BRK\<close>
         bnd (fetch_byte s) (\<lambda>(padding, s).
           let ret = cpu_PC (cpu s)
           in bnd (push s ((drop_bit 8 ret) AND 0xFF)) (\<lambda>s. bnd (push s (ret AND 0xFF)) (\<lambda>s.
                bnd (push s (cpu_P (cpu s) OR 0x10)) (\<lambda>s.
                  let s = set_flag FLAG_I True s
                  in bnd (read_addr s 0xFFFE) (\<lambda>(lo, s). bnd (read_addr s 0xFFFF) (\<lambda>(hi, s).
                       tick 7 (set_PC ((push_bit 8 hi) OR lo) s)))))))
      else if opcode = 0x40 then \<comment> \<open>RTI\<close>
         bnd (pop s) (\<lambda>(p, s).
           let s = set_P ((p AND (NOT 0x10)) AND 0xFF) s
           in bnd (pop s) (\<lambda>(lo, s). bnd (pop s) (\<lambda>(hi, s).
                tick 6 (set_PC ((push_bit 8 hi) OR lo) s))))
      else if opcode = 0x18 then \<comment> \<open>CLC\<close>
         tick 2 (set_flag FLAG_C False s)
      else if opcode = 0x38 then \<comment> \<open>SEC\<close>
         tick 2 (set_flag FLAG_C True s)
      else if opcode = 0x58 then \<comment> \<open>CLI\<close>
         tick 2 (set_flag FLAG_I False s)
      else if opcode = 0x78 then \<comment> \<open>SEI\<close>
         tick 2 (set_flag FLAG_I True s)
      else if opcode = 0x48 then \<comment> \<open>PHA\<close>
         bnd (push s (cpu_A (cpu s))) (\<lambda>s. tick 3 s)
      else if opcode = 0x68 then \<comment> \<open>PLA\<close>
         bnd (pop s) (\<lambda>(val, s). let s = set_A val s in tick 4 (update_zn (cpu_A (cpu s)) s))
      else \<comment> \<open>fallback: treated as NOP\<close>
         tick 2 s)"

definition step :: "NES \<Rightarrow> py_error + (int \<times> NES)" where
  "step s = bnd (fetch_byte s) (\<lambda>(opcode, s). exec_opcode opcode s)"

definition implemented_opcodes :: "int list" where
  \<comment> \<open>the opcodes \<open>step\<close> tests for\<close>
  "implemented_opcodes = [0xEA, 0xA9, 0xA5, 0xB5, 0xAD, 0xBD, 0xB9, 0xA1, 0xB1, 0x85, 0x8D, 0x95, 0x9D, 0x99, 0x81, 0x91, 0xAA, 0xA8, 0x8A, 0x98, 0xE8, 0xC8, 0xCA, 0x88, 0x69, 0x65, 0xD0, 0xF0, 0x90, 0xB0, 0x4C, 0x6C, 0x20, 0x60, 0x00, 0x40, 0x18, 0x38, 0x58, 0x78, 0x48, 0x68]"

definition sbc_opcodes :: "int list" where
  \<comment> \<open>SBC in its eight documented addressing modes\<close>
  "sbc_opcodes = [0xE9, 0xE5, 0xF5, 0xED, 0xFD, 0xF9, 0xE1, 0xF1]"

section \<open>Frame rendering\<close>

text \<open>
  \<open>PPU.render_frame\<close>. The surface is the map from a position \<open>(x, y)\<close> to its colour;
  \<open>set_at\<close> is only ever called inside the 256 by 240 screen (the sprite loop tests the
  position first). The loops are \<open>for_each\<close> over the ranges, in the order of the source;
  the part up to the end of the background loop is \<open>render_background\<close>.
\<close>

type_synonym rgb = "int \<times> int \<times> int"
type_synonym surface = "int \<times> int \<Rightarrow> rgb"

definition NES_PALETTE :: "rgb list" where
  "NES_PALETTE = [
    (84, 84, 84), (0, 30, 116), (8, 16, 144), (48, 0, 136), (68, 0, 100), (92, 0, 48), (84, 4, 0), (60, 24, 0),
    (32, 42, 0), (8, 58, 0), (0, 64, 0), (0, 60, 0), (0, 50, 60), (0, 0, 0), (0, 0, 0), (0, 0, 0),
    (152, 150, 152), (8, 76, 196), (48, 50, 236), (92, 30, 228), (136, 20, 176), (160, 20, 100), (152, 34, 32), (120, 60, 0),
    (84, 90, 0), (40, 114, 0), (8, 124, 0), (0, 118, 40), (0, 102, 120), (0, 0, 0), (0, 0, 0), (0, 0, 0),
    (236, 238, 236), (76, 154, 236), (120, 124, 236), (176, 98, 236), (228, 84, 236), (236, 88, 180), (236, 106, 100), (212, 136, 32),
    (160, 170, 0), (116, 196, 0), (76, 208, 32), (56, 204, 108), (56, 180, 204), (60, 60, 60), (0, 0, 0), (0, 0, 0)]"


definition set_at :: "surface \<Rightarrow> int \<times> int \<Rightarrow> rgb \<Rightarrow> surface" where
  "set_at surf pos color = surf(pos := color)"

primrec for_each :: "'i list \<Rightarrow> ('i \<Rightarrow> 'st \<Rightarrow> py_error + 'st) \<Rightarrow> 'st \<Rightarrow> py_error + 'st" where
  "for_each [] body st = Inr st"
| "for_each (i # is) body st = bnd (body i st) (for_each is body)"

primrec decode_all :: "nat list \<Rightarrow> byte list \<Rightarrow> py_error + int list list list" where
  \<comment> \<open>\<open>[decode_tile_8x8(self.chr[i*16:(i+1)*16]) for i in ...]\<close>\<close>
  "decode_all [] chr_bytes = Inr []"
| "decode_all (i # is) chr_bytes =
     bnd (decode_tile_8x8 (py_slice chr_bytes (i * 16) ((i + 1) * 16))) (\<lambda>t.
       bnd (decode_all is chr_bytes) (\<lambda>ts. Inr (t # ts)))"

definition draw_bg_pixel ::
  "PPU \<Rightarrow> int list list \<Rightarrow> int \<Rightarrow> nat \<Rightarrow> nat \<Rightarrow> nat \<Rightarrow> nat \<Rightarrow> surface \<Rightarrow> py_error + surface" where
  \<comment> \<open>the body of the loops over \<open>ty\<close> and \<open>tx\<close> of the background\<close>
  "draw_bg_pixel p tile pal_base row col ty tx surf =
     bnd (py_get tile (int ty)) (\<lambda>tile_row. bnd (py_get tile_row (int tx)) (\<lambda>t.
       let pidx = t AND 0x03
       in bnd (PPU_read p (pal_base + pidx)) (\<lambda>c.
            let color_index = c AND 0x3F
            in bnd (py_get NES_PALETTE (color_index mod int (length NES_PALETTE))) (\<lambda>color.
                 Inr (set_at surf (int col * 8 + int tx, int row * 8 + int ty) color)))))"

definition draw_bg_tile ::
  "PPU \<Rightarrow> int list list list \<Rightarrow> nat \<Rightarrow> nat \<Rightarrow> surface \<Rightarrow> py_error + surface" where
  \<comment> \<open>the body of the loops over \<open>row\<close> and \<open>col\<close>\<close>
  "draw_bg_tile p tiles row col surf =
     (let base_nt = 0x2000;
          nt_addr = base_nt + int row * 32 + int col
      in bnd (PPU_read p nt_addr) (\<lambda>tile_index.
           bnd (py_get tiles (tile_index mod max 1 (int (length tiles)))) (\<lambda>tile.
             let attr_x = col div 4;
                 attr_y = row div 4;
                 attr_addr = 0x23C0 + int attr_y * 8 + int attr_x
             in bnd (PPU_read p attr_addr) (\<lambda>attr.
                  let sub_x = (col mod 4) div 2;
                      sub_y = (row mod 4) div 2;
                      shift = (sub_y * 2 + sub_x) * 2;
                      palette_id = (drop_bit shift attr) AND 0x03;
                      pal_base = 0x3F00 + palette_id * 4
                  in for_each [0..<8] (\<lambda>ty.
                       for_each [0..<8] (\<lambda>tx.
                         draw_bg_pixel p tile pal_base row col ty tx)) surf))))"



definition render_background :: "PPU \<Rightarrow> py_error + (int list list list \<times> surface)" where
  \<comment> \<open>\<open>render_frame\<close> up to the end of the background loop: the tiles and the surface\<close>
  "render_background p =
     bnd (if length (ppu_palette p) > 0 then ba_get (ppu_palette p) 0 else Inr 0) (\<lambda>bg_index.
     bnd (py_get NES_PALETTE (bg_index mod int (length NES_PALETTE))) (\<lambda>bg_color.
       let surf = (\<lambda>pos. bg_color);
           tile_count = length (ppu_chr p) div 16
       in bnd (decode_all [0..<tile_count] (ppu_chr p)) (\<lambda>tiles.
            bnd (for_each [0..<30] (\<lambda>row.
                   for_each [0..<32] (\<lambda>col.
                     draw_bg_tile p tiles row col)) surf) (\<lambda>surf.
              Inr (tiles, surf)))))"


section \<open>The frame driver\<close>









definition service_nmi :: "NES \<Rightarrow> py_error + NES" where
  \<comment> \<open>the body of \<open>if self.nmi_pending:\<close> in \<open>run_cpu_cycles\<close>\<close>
  "service_nmi s0 =
     (let s = s0\<lparr>nmi_pending := False\<rparr>;
          pc = cpu_PC (cpu s)
      in bnd (push s ((drop_bit 8 pc) AND 0xFF)) (\<lambda>s. bnd (push s (pc AND 0xFF)) (\<lambda>s.
           bnd (push s ((cpu_P (cpu s) AND (NOT 0x10)) AND 0xFF)) (\<lambda>s.
             let s = set_flag FLAG_I True s
             in bnd (cpu_read s 0xFFFA) (\<lambda>(lo, s). bnd (cpu_read s 0xFFFB) (\<lambda>(hi, s).
                  Inr (set_PC ((push_bit 8 hi) OR lo) s)))))))"



definition NES_new :: "INESRom \<Rightarrow> NES" where
  \<comment> \<open>the fields of \<open>NES.__init__\<close> before \<open>self.cpu.reset()\<close>\<close>
  "NES_new r =
     \<lparr> rom = r,
       ram = replicate 0x800 0,
       sram = replicate 0x2000 0,
       prg = prg_rom r,
       ppu = PPU_init r None,
       controller_state = [0, 0],
       controller_shift = [0, 0],
       controller_strobe = 0,
       cpu = \<lparr> cpu_A = 0, cpu_X = 0, cpu_Y = 0, cpu_PC = 0, cpu_SP = 0xFD, cpu_P = 0x24,
               cpu_cycles = 0 \<rparr>,
       nmi_pending = False \<rparr>"

definition NES_init :: "byte list \<Rightarrow> py_error + NES" where
  \<comment> \<open>\<open>NES(rom_path)\<close>, on the bytes of the file\<close>
  "NES_init file = bnd (INESRom_load file) (\<lambda>r. reset (NES_new r))"


section \<open>Predicates of the proofs\<close>

text \<open>
  What construction establishes and no operation changes: the sizes of the buffers and of
  the two controller lists. The PRG condition is the one of a cartridge of one or two
  banks read in full.
\<close>

definition nes_ok :: "NES \<Rightarrow> bool" where
  "nes_ok s \<longleftrightarrow>
     length (ram s) = 0x800 \<and> length (sram s) = 0x2000 \<and>
     length (ppu_oam (ppu s)) = 256 \<and>
     length (controller_state s) = 2 \<and> length (controller_shift s) = 2 \<and>
     (prg_banks (rom s) = 1 \<or> prg_banks (rom s) = 2) \<and>
     int (length (prg s)) = prg_banks (rom s) * 16384"



text \<open>
  For the proofs about the loops: a drawing step \<open>paints\<close> a set of positions with the
  colours of \<open>V\<close> when it raises nothing, gives every position of the set its colour in
  \<open>V\<close> and leaves the others as they were. \<open>bg_color\<close> is the colour the background loop
  computes for pixel \<open>(tx, ty)\<close> of the tile at \<open>(row, col)\<close>, read off the buffers.
\<close>

definition paints :: "(surface \<Rightarrow> py_error + surface) \<Rightarrow> (int \<times> int) set \<Rightarrow> surface \<Rightarrow> bool" where
  "paints F D V = (\<forall>surf. \<exists>surf'. F surf = Inr surf' \<and> (\<forall>z. surf' z = (if z \<in> D then V z else surf z)))"

definition bg_color :: "PPU \<Rightarrow> int list list list \<Rightarrow> nat \<Rightarrow> nat \<Rightarrow> nat \<Rightarrow> nat \<Rightarrow> rgb" where
  "bg_color p tiles row col ty tx =
     (let tile_index = uint (ppu_vram p ! (row * 32 + col));
          tile = tiles ! nat (tile_index mod int (length tiles));
          attr = uint (ppu_vram p ! (0x3C0 + (row div 4) * 8 + col div 4));
          shift = ((row mod 4) div 2 * 2 + (col mod 4) div 2) * 2;
          palette_id = (drop_bit shift attr) AND 0x03;
          pidx = (tile ! ty ! tx) AND 0x03;
          c = uint (ppu_palette p ! nat (palette_id * 4 + pidx))
      in NES_PALETTE ! nat ((c AND 0x3F) mod 48))"

definition ppu_ok :: "PPU \<Rightarrow> bool" where
  "ppu_ok p \<longleftrightarrow> length (ppu_vram p) = 2048 \<and> length (ppu_palette p) = 32 \<and>
     length (ppu_oam p) = 256 \<and> 16 \<le> length (ppu_chr p)"

definition tiles_ok :: "int list list list \<Rightarrow> bool" where
  "tiles_ok tiles \<longleftrightarrow> tiles \<noteq> [] \<and>
     (\<forall>t \<in> set tiles. length t = 8 \<and> (\<forall>r \<in> set t. length r = 8))"

text \<open>
  The CPU never touches CHR, VRAM or palette RAM (there is no PPU register file): these are
  the \<open>ppu_static\<close> part of the machine, and a result keeps it when it is an exception or
  a state with the same static part. A drawing step \<open>draws\<close> when it raises nothing. The
  loop of \<open>run_cpu_cycles\<close> has \<open>budget_met\<close> when it ends on an exception or with the
  target reached.
\<close>

definition ppu_static :: "NES \<Rightarrow> byte list \<times> byte list \<times> byte list" where
  "ppu_static s = (ppu_chr (ppu s), ppu_vram (ppu s), ppu_palette (ppu s))"





section \<open>Scenarios and concrete inputs\<close>

primrec read_n :: "nat \<Rightarrow> int \<Rightarrow> NES \<Rightarrow> py_error + (int list \<times> NES)" where
  \<comment> \<open>\<open>n\<close> successive \<open>cpu_read(addr)\<close>, the values in order\<close>
  "read_n 0 addr s = Inr ([], s)"
| "read_n (Suc n) addr s =
     bnd (cpu_read s addr) (\<lambda>(v, s). bnd (read_n n addr s) (\<lambda>(vs, s). Inr (v # vs, s)))"

definition write_then_read :: "PPU \<Rightarrow> int \<Rightarrow> int \<Rightarrow> int \<Rightarrow> py_error + int" where
  \<comment> \<open>\<open>ppu.write(a, v)\<close>, then \<open>ppu.read(b)\<close>\<close>
  "write_then_read p a v b = bnd (PPU_write p a v) (\<lambda>p'. PPU_read p' b)"

definition horizontal_rom :: INESRom where
  \<comment> \<open>a mapper-0 cartridge: one PRG bank of zeros, CHR-RAM, horizontal mirroring\<close>
  "horizontal_rom =
     \<lparr> prg_rom = replicate 16384 0, chr_rom = [], mapper = 0, mirroring = Horizontal,
       prg_banks = 1, chr_banks = 0, trainer_present = False \<rparr>"

definition mapper1_file :: "byte list" where
  \<comment> \<open>an image whose header declares mapper 1 and three PRG banks, followed by 48 KiB of PRG\<close>
  "mapper1_file =
     [0x4E, 0x45, 0x53, 0x1A, 3, 0, 0x10, 0, 0, 0, 0, 0, 0, 0, 0, 0] @ replicate 49152 0"

definition latch_then_read :: "nat \<Rightarrow> int \<Rightarrow> NES \<Rightarrow> py_error + int" where
  \<comment> \<open>strobe written 1 then 0, \<open>n\<close> reads of the port, then the value of one more read\<close>
  "latch_then_read n port s =
     bnd (cpu_write s 0x4016 1) (\<lambda>s. bnd (cpu_write s 0x4016 0) (\<lambda>s.
       bnd (read_n n port s) (\<lambda>(vs, s). bnd (cpu_read s port) (\<lambda>(v, s). Inr v))))"

definition pressed_nes :: NES where
  \<comment> \<open>a fresh machine with every button of controller 1 held\<close>
  "pressed_nes = (NES_new horizontal_rom)\<lparr>controller_state := [0xFF, 0]\<rparr>"

definition sbc_state :: NES where
  \<comment> \<open>\<open>SBC #$01\<close> at \<open>$0000\<close>, with \<open>A = 5\<close> and the carry set\<close>
  "sbc_state = (NES_new horizontal_rom)
     \<lparr> ram := [0xE9, 0x01] @ replicate 2046 0,
       cpu := \<lparr> cpu_A = 5, cpu_X = 0, cpu_Y = 0, cpu_PC = 0, cpu_SP = 0xFD, cpu_P = 0x25,
                cpu_cycles = 0 \<rparr> \<rparr>"

definition nmi_state :: NES where
  \<comment> \<open>an NMI pending while bit 5 of \<open>P\<close> is clear, as after an \<open>RTI\<close> that pulled such a byte\<close>
  "nmi_state = (NES_new horizontal_rom)
     \<lparr> cpu := \<lparr> cpu_A = 0, cpu_X = 0, cpu_Y = 0, cpu_PC = 0x8123, cpu_SP = 0xFD, cpu_P = 0x04,
                cpu_cycles = 0 \<rparr>,
       nmi_pending := True \<rparr>"

definition bg_bad_ppu :: PPU where
  \<comment> \<open>a fresh PPU after \<open>write($23C0, 1)\<close> and \<open>write($3F04, 1)\<close>: tile 0 everywhere, all its
      pixels of index 0, subpalette 1 for the top-left tiles\<close>
  "bg_bad_ppu = (PPU_init horizontal_rom None)
     \<lparr> ppu_vram := (replicate 2048 0)[0x3C0 := 1],
       ppu_palette := (replicate 32 0)[4 := 1] \<rparr>"

section \<open>Properties of the tile decoder\<close>

lemma ba_get_in_range: "i < length xs \<Longrightarrow> ba_get xs (int i) = Inr (uint (xs ! i))"
  by (simp add: ba_get_def py_index_def)

lemma fold_update_length:
  "length (fold (\<lambda>x r. r[x := f x]) xs r) = length r"
  by (induction xs arbitrary: r) simp_all

lemma fold_update_nth:
  "n \<le> length r \<Longrightarrow> i < length r \<Longrightarrow>
     fold (\<lambda>x r. r[x := f x]) [0..<n] r ! i = (if i < n then f i else r ! i)"
proof (induction n)
  case 0
  then show ?case by simp
next
  case (Suc n)
  then show ?case
    by (auto simp: fold_update_length nth_list_update less_Suc_eq)
qed

lemma decode_row_length: "length (decode_row b0 b1 r) = length r"
  by (simp add: decode_row_def fold_update_length)

lemma decode_row_nth:
  "length r = 8 \<Longrightarrow> x < 8 \<Longrightarrow> decode_row b0 b1 r ! x = tile_pixel b0 b1 x"
  by (simp add: decode_row_def fold_update_nth)

lemma decode_rows_result:
  "distinct ys \<Longrightarrow> \<forall>y \<in> set ys. y < 8 \<Longrightarrow> length plane0 = 8 \<Longrightarrow> length plane1 = 8 \<Longrightarrow>
   length pixels = 8 \<Longrightarrow>
   \<exists>px. decode_rows ys plane0 plane1 pixels = Inr px \<and> length px = 8 \<and>
     (\<forall>y < 8. px ! y = (if y \<in> set ys
                          then decode_row (uint (plane0 ! y)) (uint (plane1 ! y)) (pixels ! y)
                          else pixels ! y))"
proof (induction ys arbitrary: pixels)
  case Nil
  then show ?case by simp
next
  case (Cons y ys)
  let ?px = "pixels[y := decode_row (uint (plane0 ! y)) (uint (plane1 ! y)) (pixels ! y)]"
  have y: "y < 8" and ny: "y \<notin> set ys" using Cons.prems by auto
  have "length ?px = 8" using Cons.prems by simp
  with Cons.IH [of ?px] Cons.prems obtain px where
    px: "decode_rows ys plane0 plane1 ?px = Inr px" "length px = 8"
        "\<forall>z < 8. px ! z = (if z \<in> set ys
                          then decode_row (uint (plane0 ! z)) (uint (plane1 ! z)) (?px ! z)
                          else ?px ! z)"
    by auto
  have step: "decode_rows (y # ys) plane0 plane1 pixels = Inr px"
    using px(1) y Cons.prems by (simp add: ba_get_in_range)
  have "\<forall>z < 8. px ! z = (if z \<in> set (y # ys)
                          then decode_row (uint (plane0 ! z)) (uint (plane1 ! z)) (pixels ! z)
                          else pixels ! z)"
  proof (intro allI impI)
    fix z :: nat assume z: "z < 8"
    show "px ! z = (if z \<in> set (y # ys)
                          then decode_row (uint (plane0 ! z)) (uint (plane1 ! z)) (pixels ! z)
                          else pixels ! z)"
    proof (cases "z = y")
      case True
      with px(3) ny z Cons.prems(5) show ?thesis by simp
    next
      case False
      with px(3) z show ?thesis by simp
    qed
  qed
  with step px(2) show ?case by blast
qed

lemma tile_pixel_range: "tile_pixel b0 b1 x \<in> {0, 1, 2, 3}"
proof -
  have a: "(drop_bit (7 - x) b0) AND 1 \<in> {0, 1}" for b0 :: int
    by (simp add: and_one_eq) presburger
  from a [of b0] a [of b1] show ?thesis
    by (auto simp: tile_pixel_def Let_def)
qed

lemma decode_tile_8x8_result:
  assumes "length tile_bytes = 16"
  shows "\<exists>px. decode_tile_8x8 tile_bytes = Inr px \<and> length px = 8 \<and>
           (\<forall>y < 8. length (px ! y) = 8 \<and>
              (\<forall>x < 8. px ! y ! x = tile_pixel (uint (tile_bytes ! y)) (uint (tile_bytes ! (8 + y))) x))"
proof -
  let ?p0 = "py_slice tile_bytes 0 8" and ?p1 = "py_slice tile_bytes 8 16"
  let ?z = "replicate 8 (replicate 8 (0::int))"
  have l: "length ?p0 = 8" "length ?p1 = 8" using assms by (simp_all add: py_slice_def)
  have d: "distinct [0..<8::nat]" "\<forall>y \<in> set [0..<8::nat]. y < 8" by simp_all
  from decode_rows_result [OF d l, of ?z] obtain px where
    px: "decode_rows [0..<8] ?p0 ?p1 ?z = Inr px" "length px = 8"
        "\<forall>y < 8. px ! y = (if y \<in> set [0..<8]
                          then decode_row (uint (?p0 ! y)) (uint (?p1 ! y)) (?z ! y)
                          else ?z ! y)"
    by auto
  have "\<forall>y < 8. length (px ! y) = 8 \<and>
              (\<forall>x < 8. px ! y ! x = tile_pixel (uint (tile_bytes ! y)) (uint (tile_bytes ! (8 + y))) x)"
  proof (intro allI impI)
    fix y :: nat assume y: "y < 8"
    have e: "px ! y = decode_row (uint (tile_bytes ! y)) (uint (tile_bytes ! (8 + y))) (replicate 8 0)"
      using px(3) y assms by (simp add: py_slice_def)
    show "length (px ! y) = 8 \<and>
              (\<forall>x < 8. px ! y ! x = tile_pixel (uint (tile_bytes ! y)) (uint (tile_bytes ! (8 + y))) x)"
      by (simp add: e decode_row_length decode_row_nth)
  qed
  with px(1,2) show ?thesis by (auto simp: decode_tile_8x8_def Let_def)
qed

text \<open>
  C8. For every 16-byte tile (plane 0 the first eight bytes, plane 1 the last eight), both
  decoders return an 8 by 8 matrix with
  \<open>pixel[y][x] = (((plane1[y] >> (7-x)) & 1) << 1) | ((plane0[y] >> (7-x)) & 1)\<close>
  and every pixel in \<open>{0, 1, 2, 3}\<close>.
\<close>

theorem decode_tile_pixels:
  assumes "length tile_bytes = 16"
  shows "\<exists>px. decode_tile_8x8 tile_bytes = Inr px \<and> decode_tile tile_bytes = Inr px \<and>
           length px = 8 \<and>
           (\<forall>y < 8. length (px ! y) = 8 \<and>
              (\<forall>x < 8.
                 px ! y ! x =
                   (push_bit 1 ((drop_bit (7 - x) (uint (py_slice tile_bytes 8 16 ! y))) AND 1))
                     OR ((drop_bit (7 - x) (uint (py_slice tile_bytes 0 8 ! y))) AND 1)
                 \<and> px ! y ! x \<in> {0, 1, 2, 3}))"
proof -
  from decode_tile_8x8_result [OF assms] obtain px where
    px: "decode_tile_8x8 tile_bytes = Inr px" "length px = 8"
        "\<forall>y < 8. length (px ! y) = 8 \<and>
              (\<forall>x < 8. px ! y ! x = tile_pixel (uint (tile_bytes ! y)) (uint (tile_bytes ! (8 + y))) x)"
    by blast
  have v10: "decode_tile tile_bytes = Inr px"
    using px(1) assms by (simp add: decode_tile_def decode_tile_8x8_def)
  have "\<forall>y < 8. length (px ! y) = 8 \<and>
              (\<forall>x < 8.
                 px ! y ! x =
                   (push_bit 1 ((drop_bit (7 - x) (uint (py_slice tile_bytes 8 16 ! y))) AND 1))
                     OR ((drop_bit (7 - x) (uint (py_slice tile_bytes 0 8 ! y))) AND 1)
                 \<and> px ! y ! x \<in> {0, 1, 2, 3})"
  proof (intro allI impI conjI)
    fix y x :: nat assume yx: "y < 8" "x < 8"
    from px(3) yx show "length (px ! y) = 8" by simp
    have e: "px ! y ! x = tile_pixel (uint (tile_bytes ! y)) (uint (tile_bytes ! (8 + y))) x"
      using px(3) yx by simp
    show "px ! y ! x =
            (push_bit 1 ((drop_bit (7 - x) (uint (py_slice tile_bytes 8 16 ! y))) AND 1))
              OR ((drop_bit (7 - x) (uint (py_slice tile_bytes 0 8 ! y))) AND 1)"
    proof -
      have s0: "py_slice tile_bytes 0 8 ! y = tile_bytes ! y"
        and s1: "py_slice tile_bytes 8 16 ! y = tile_bytes ! (8 + y)"
        using yx assms by (simp_all add: py_slice_def)
      show ?thesis by (simp only: e tile_pixel_def Let_def s0 s1)
    qed
    show "px ! y ! x \<in> {0, 1, 2, 3}"
      unfolding e by (rule tile_pixel_range)
  qed
  with px(1,2) v10 show ?thesis by blast
qed

theorem decode_tile_pixels_witness:
  "\<exists>px. decode_tile_8x8 (replicate 16 255) = Inr px \<and> px ! 0 ! 0 = 3"
proof -
  have l: "length (replicate 16 (255::byte)) = 16" by simp
  from decode_tile_pixels [OF l] obtain px where
    px: "decode_tile_8x8 (replicate 16 255) = Inr px"
        "\<forall>y < 8. length (px ! y) = 8 \<and>
              (\<forall>x < 8.
                 px ! y ! x =
                   (push_bit 1 ((drop_bit (7 - x) (uint (py_slice (replicate 16 (255::byte)) 8 16 ! y))) AND 1))
                     OR ((drop_bit (7 - x) (uint (py_slice (replicate 16 (255::byte)) 0 8 ! y))) AND 1)
                 \<and> px ! y ! x \<in> {0, 1, 2, 3})"
    by blast
  from px(2) have "px ! 0 ! 0 =
      (push_bit 1 ((drop_bit (7 - 0) (uint (py_slice (replicate 16 (255::byte)) 8 16 ! 0))) AND 1))
        OR ((drop_bit (7 - 0) (uint (py_slice (replicate 16 (255::byte)) 0 8 ! 0))) AND 1)"
    by simp
  also have "\<dots> = 3" by (simp add: py_slice_def)
  finally show ?thesis using px(1) by blast
qed

section \<open>Properties of the loader\<close>

lemma INESRom_load_v10_eq: "INESRom_load_v10 file = INESRom_load file"
  by (simp add: INESRom_load_def INESRom_load_v10_def Let_def)

lemma INESRom_load_rejects:
  "length file < 16 \<or> take 4 file \<noteq> ines_magic \<Longrightarrow> INESRom_load file = Inl ValueError"
  by (auto simp: INESRom_load_def Let_def py_slice_def min_def)

lemma INESRom_load_accepts:
  "16 \<le> length file \<Longrightarrow> take 4 file = ines_magic \<Longrightarrow> INESRom_load file = Inr (read_images file)"
  by (auto simp: INESRom_load_def Let_def py_slice_def min_def)

text \<open>
  C7, as the code has it. Construction of the cartridge fails exactly for a file shorter
  than 16 bytes or without the signature \<open>NES\x1a\<close>. Every other file loads, in both
  versions of the loader, whatever mapper and PRG bank count its header declares; both
  numbers are recorded as declared and nothing checks them.
\<close>

theorem ines_load_checks_signature_only:
  "(length file < 16 \<or> take 4 file \<noteq> ines_magic \<longrightarrow>
      INESRom_load file = Inl ValueError \<and> INESRom_load_v10 file = Inl ValueError) \<and>
   (16 \<le> length file \<and> take 4 file = ines_magic \<longrightarrow>
      (\<exists>r. INESRom_load file = Inr r \<and> INESRom_load_v10 file = Inr r \<and>
           prg_banks r = uint (file ! 4) \<and>
           mapper r = (push_bit 4 (drop_bit 4 (uint (file ! 7)))) OR (drop_bit 4 (uint (file ! 6)))))"
proof (intro conjI impI)
  assume a: "length file < 16 \<or> take 4 file \<noteq> ines_magic"
  then show "INESRom_load file = Inl ValueError" by (rule INESRom_load_rejects)
  then show "INESRom_load_v10 file = Inl ValueError" by (simp add: INESRom_load_v10_eq)
next
  assume a: "16 \<le> length file \<and> take 4 file = ines_magic"
  then have l: "INESRom_load file = Inr (read_images file)" by (simp add: INESRom_load_accepts)
  moreover have "prg_banks (read_images file) = uint (file ! 4)"
    by (simp add: read_images_def Let_def)
  moreover have "mapper (read_images file) =
      (push_bit 4 (drop_bit 4 (uint (file ! 7)))) OR (drop_bit 4 (uint (file ! 6)))"
    by (simp add: read_images_def Let_def)
  ultimately show "\<exists>r. INESRom_load file = Inr r \<and> INESRom_load_v10 file = Inr r \<and>
           prg_banks r = uint (file ! 4) \<and>
           mapper r = (push_bit 4 (drop_bit 4 (uint (file ! 7)))) OR (drop_bit 4 (uint (file ! 6)))"
    by (simp add: INESRom_load_v10_eq)
qed

theorem ines_load_checks_signature_only_witness:
  "INESRom_load [] = Inl ValueError \<and>
   (\<exists>r. INESRom_load mapper1_file = Inr r \<and> prg_banks r = 3 \<and> mapper r = 1)"
proof -
  have h: "16 \<le> length mapper1_file \<and> take 4 mapper1_file = ines_magic"
    by (simp add: mapper1_file_def ines_magic_def)
  from ines_load_checks_signature_only [of mapper1_file] h
  obtain r where r: "INESRom_load mapper1_file = Inr r" "prg_banks r = uint (mapper1_file ! 4)"
    "mapper r = (push_bit 4 (drop_bit 4 (uint (mapper1_file ! 7)))) OR (drop_bit 4 (uint (mapper1_file ! 6)))"
    by blast
  have "prg_banks r = 3" "mapper r = 1"
    using r(2,3) by (simp_all add: mapper1_file_def)
  with r(1) ines_load_checks_signature_only [of "[]"] show ?thesis by auto
qed

text \<open>
  The claim as stated fails: the image \<open>mapper1_file\<close> declares mapper 1 and three PRG
  banks, its cartridge is constructed, and the system is built from it.
\<close>

theorem ines_load_accepts_mapper1:
  "\<not> isl (INESRom_load mapper1_file) \<and>
   mapper (projr (INESRom_load mapper1_file)) = 1 \<and>
   prg_banks (projr (INESRom_load mapper1_file)) = 3 \<and>
   \<not> isl (NES_init mapper1_file)"
  by (simp add: NES_init_def INESRom_load_def mapper1_file_def Let_def py_slice_def ines_magic_def
      read_images_def bnd_def reset_def NES_new_def cpu_read_def ba_get_def py_index_def)

section \<open>Properties of the PPU address space\<close>

lemma uint_byte_of_int: "0 \<le> v \<Longrightarrow> v \<le> 255 \<Longrightarrow> uint (word_of_int v :: byte) = v"
  by (simp add: uint_word_of_int take_bit_int_eq_self)

lemma and_255_id: "0 \<le> v \<Longrightarrow> v \<le> 255 \<Longrightarrow> v AND 0xFF = (v::int)"
proof -
  assume "0 \<le> v" "v \<le> 255"
  then have "take_bit 8 v = v" by (simp add: take_bit_int_eq_self)
  then show ?thesis by (simp add: take_bit_eq_mask mask_eq_exp_minus_1)
qed

text \<open>
  C1, as the code has it. The PPU keeps no mirroring state and never reads the cartridge
  flag: the nametable index is the address masked to 11 bits. For every byte \<open>v\<close>, after
  \<open>ppu.write($2000, v)\<close> a read of \<open>$2800\<close> returns \<open>v\<close> and a read of \<open>$2400\<close> returns what
  it returned before the write, whatever the flag of the cartridge.
\<close>

theorem ppu_nametable_mirroring_fixed:
  assumes "length (ppu_vram p) = 2048" and "0 \<le> v" and "v \<le> 255"
  shows "write_then_read p 0x2000 v 0x2800 = Inr v \<and>
         write_then_read p 0x2000 v 0x2400 = PPU_read p 0x2400"
  using assms
  by (auto simp add: write_then_read_def PPU_write_def PPU_read_def ba_set_def ba_get_def
      py_index_def bnd_def Let_def and_255_id uint_byte_of_int)

theorem ppu_nametable_mirroring_fixed_witness:
  "mirroring horizontal_rom = Horizontal \<and>
   write_then_read (PPU_init horizontal_rom None) 0x2000 7 0x2800 = Inr 7"
proof -
  have "length (ppu_vram (PPU_init horizontal_rom None)) = 2048"
    by (simp add: PPU_init_def)
  from ppu_nametable_mirroring_fixed [OF this, of 7]
  show ?thesis by (simp add: horizontal_rom_def)
qed

text \<open>
  The claim as stated fails under horizontal mirroring: the write to \<open>$2000\<close> is not seen
  at \<open>$2400\<close>.
\<close>

theorem ppu_horizontal_write_not_at_2400:
  "mirroring horizontal_rom = Horizontal \<and>
   write_then_read (PPU_init horizontal_rom None) 0x2000 1 0x2400 = Inr 0"
  by (simp add: horizontal_rom_def write_then_read_def PPU_init_def PPU_write_def PPU_read_def
      ba_set_def ba_get_def py_index_def bnd_def Let_def)

text \<open>
  C2, as the code has it. Palette RAM is 32 independent bytes, addressed modulo 32: a write
  to \<open>$3F10\<close>, \<open>$3F14\<close>, \<open>$3F18\<close> or \<open>$3F1C\<close> is read back at the same address and leaves
  the background entry \<open>$3F00\<close>, \<open>$3F04\<close>, \<open>$3F08\<close>, \<open>$3F0C\<close> as it was, and a write to the
  background entry leaves the entry 16 above it as it was.
\<close>

theorem ppu_palette_entries_independent:
  assumes "length (ppu_palette p) = 32" and "0 \<le> v" and "v \<le> 255"
    and "a \<in> {0x3F00, 0x3F04, 0x3F08, 0x3F0C}"
  shows "write_then_read p (a + 0x10) v a = PPU_read p a \<and>
         write_then_read p a v (a + 0x10) = PPU_read p (a + 0x10) \<and>
         write_then_read p a v a = Inr v \<and>
         write_then_read p (a + 0x10) v (a + 0x10) = Inr v"
proof -
  have l: "ppu_palette p \<noteq> []" using assms(1) by auto
  note defs = write_then_read_def PPU_write_def PPU_read_def ba_set_def ba_get_def
      py_index_def bnd_def Let_def and_255_id uint_byte_of_int
  from assms(4) have "a = 0x3F00 \<or> a = 0x3F04 \<or> a = 0x3F08 \<or> a = 0x3F0C" by simp
  then show ?thesis
  proof (elim disjE)
    assume "a = 0x3F00" with assms(1-3) l show ?thesis by (simp add: defs)
  next
    assume "a = 0x3F04" with assms(1-3) l show ?thesis by (simp add: defs)
  next
    assume "a = 0x3F08" with assms(1-3) l show ?thesis by (simp add: defs)
  next
    assume "a = 0x3F0C" with assms(1-3) l show ?thesis by (simp add: defs)
  qed
qed

theorem ppu_palette_entries_independent_witness:
  "write_then_read (PPU_init horizontal_rom None) 0x3F10 9 0x3F10 = Inr 9 \<and>
   write_then_read (PPU_init horizontal_rom None) 0x3F10 9 0x3F00
     = PPU_read (PPU_init horizontal_rom None) 0x3F00"
proof -
  have "length (ppu_palette (PPU_init horizontal_rom None)) = 32"
    by (simp add: PPU_init_def)
  from ppu_palette_entries_independent [OF this, of 9 "0x3F00"]
  show ?thesis by simp
qed

text \<open>
  The claim as stated fails: after \<open>ppu.write($3F10, 1)\<close> on a fresh PPU, \<open>ppu.read($3F00)\<close>
  returns 0.
\<close>

theorem ppu_palette_3f10_not_at_3f00:
  "write_then_read (PPU_init horizontal_rom None) 0x3F10 1 0x3F00 = Inr 0"
  by (simp add: write_then_read_def PPU_init_def PPU_write_def PPU_read_def
      ba_set_def ba_get_def py_index_def bnd_def Let_def)

section \<open>Properties of the CPU bus\<close>

lemma bnd_Inr: "bnd (Inr v) f = f v"
  by (simp add: bnd_def)


lemma mask16_id: "0 \<le> a \<Longrightarrow> a \<le> 0xFFFF \<Longrightarrow> a AND 0xFFFF = (a::int)"
proof -
  assume "0 \<le> a" "a \<le> 0xFFFF"
  then have "take_bit 16 a = a" by (simp add: take_bit_int_eq_self)
  then show ?thesis by (simp add: take_bit_eq_mask mask_eq_exp_minus_1)
qed

lemma ba_get_ok: "0 \<le> i \<Longrightarrow> i < int (length xs) \<Longrightarrow> ba_get xs i = Inr (uint (xs ! nat i))"
  by (simp add: ba_get_def py_index_def)

lemma uint_byte_range: "0 \<le> uint (w::byte) \<and> uint w \<le> 255"
  using uint_lt2p [of w] by simp

lemma and_7ff_range: "0 \<le> (a::int) AND 0x7FF \<and> a AND 0x7FF < 2048"
proof -
  have "a AND 0x7FF \<le> 0x7FF" by (rule AND_upper2) simp
  then show ?thesis by simp
qed

lemma cpu_read_ram: "nes_ok s \<Longrightarrow> 0 \<le> a \<Longrightarrow> a \<le> 0x1FFF \<Longrightarrow>
   cpu_read s a = Inr (uint (ram s ! nat (a AND 0x7FF)), s)"
  using and_7ff_range [of a]
  by (simp add: cpu_read_def mask16_id nes_ok_def ba_get_ok bnd_def)

lemma cpu_read_zero: "0x2000 \<le> a \<Longrightarrow> a \<le> 0x5FFF \<Longrightarrow> a \<noteq> 0x4016 \<Longrightarrow> a \<noteq> 0x4017 \<Longrightarrow>
   cpu_read s a = Inr (0, s)"
  by (simp add: cpu_read_def mask16_id)

lemma cpu_read_sram: "nes_ok s \<Longrightarrow> 0x6000 \<le> a \<Longrightarrow> a \<le> 0x7FFF \<Longrightarrow>
   cpu_read s a = Inr (uint (sram s ! nat (a - 0x6000)), s)"
  by (simp add: cpu_read_def mask16_id nes_ok_def ba_get_ok bnd_def)

lemma cpu_read_prg: "nes_ok s \<Longrightarrow> 0x8000 \<le> a \<Longrightarrow> a \<le> 0xFFFF \<Longrightarrow>
   cpu_read s a = Inr (uint (prg s ! nat (if prg_banks (rom s) = 1 then (a - 0x8000) mod 16384 else a - 0x8000)), s)"
  by (auto simp add: cpu_read_def mask16_id nes_ok_def ba_get_ok bnd_def)

lemma cpu_read_4016:
  "length (controller_shift s) = 2 \<Longrightarrow>
   cpu_read s 0x4016 = Inr (((controller_shift s ! 0) AND 1) OR 0x40,
      s\<lparr>controller_shift := (controller_shift s)[0 := drop_bit 1 (controller_shift s ! 0)]\<rparr>)"
  by (simp add: cpu_read_def py_get_def py_set_def py_index_def bnd_def Let_def)

lemma cpu_read_4017:
  "length (controller_shift s) = 2 \<Longrightarrow>
   cpu_read s 0x4017 = Inr (((controller_shift s ! 1) AND 1) OR 0x40,
      s\<lparr>controller_shift := (controller_shift s)[1 := drop_bit 1 (controller_shift s ! 1)]\<rparr>)"
  by (simp add: cpu_read_def py_get_def py_set_def py_index_def bnd_def Let_def)

lemma cpu_read_port:
  assumes "length (controller_shift s) = 2" and "idx < 2"
  shows "cpu_read s (0x4016 + int idx) = Inr (((controller_shift s ! idx) AND 1) OR 0x40,
      s\<lparr>controller_shift := (controller_shift s)[idx := drop_bit 1 (controller_shift s ! idx)]\<rparr>)"
proof -
  from assms(2) consider "idx = 0" | "idx = 1" by linarith
  then show ?thesis
  proof cases
    case 1
    with cpu_read_4016 [OF assms(1)] show ?thesis by simp
  next
    case 2
    with cpu_read_4017 [OF assms(1)] show ?thesis by simp
  qed
qed

lemma bit0_or_40: "((c::int) AND 1) OR 0x40 = 0x40 \<or> (c AND 1) OR 0x40 = 0x41"
proof -
  have "c AND 1 = 0 \<or> c AND 1 = 1" by (simp add: and_one_eq) presburger
  then show ?thesis by auto
qed

lemma nes_ok_new: "nes_ok (NES_new horizontal_rom)"
  by (simp add: nes_ok_def NES_new_def PPU_init_def horizontal_rom_def)

lemma cpu_read_regions:
  assumes "nes_ok s" and "0 \<le> addr" and "addr \<le> 0xFFFF"
  shows "\<exists>v s'. cpu_read s addr = Inr (v, s') \<and> 0 \<le> v \<and> v \<le> 255 \<and>
           (0x2000 \<le> addr \<and> addr \<le> 0x5FFF \<and> addr \<noteq> 0x4016 \<and> addr \<noteq> 0x4017 \<longrightarrow> v = 0) \<and>
           (prg_banks (rom s) = 1 \<and> 0x8000 \<le> addr \<longrightarrow>
              v = uint (prg s ! nat ((addr - 0x8000) mod (16 * 1024))))"
proof -
  have sh: "length (controller_shift s) = 2" using assms(1) by (simp add: nes_ok_def)
  consider "addr \<le> 0x1FFF" | "addr = 0x4016" | "addr = 0x4017"
    | "0x2000 \<le> addr" "addr \<le> 0x5FFF" "addr \<noteq> 0x4016" "addr \<noteq> 0x4017"
    | "0x6000 \<le> addr" "addr \<le> 0x7FFF" | "0x8000 \<le> addr"
    by linarith
  then show ?thesis
  proof cases
    case 1
    with cpu_read_ram [OF assms(1,2)] uint_byte_range [of "ram s ! nat (addr AND 0x7FF)"]
    show ?thesis by simp
  next
    case 2
    with cpu_read_4016 [OF sh] bit0_or_40 [of "controller_shift s ! 0"]
    show ?thesis by auto
  next
    case 3
    with cpu_read_4017 [OF sh] bit0_or_40 [of "controller_shift s ! 1"]
    show ?thesis by auto
  next
    case 4
    with cpu_read_zero [of addr s] show ?thesis by simp
  next
    case 5
    with cpu_read_sram [OF assms(1)] uint_byte_range [of "sram s ! nat (addr - 0x6000)"]
    show ?thesis by simp
  next
    case 6
    with cpu_read_prg [OF assms(1) _ assms(3)]
      uint_byte_range [of "prg s ! nat (if prg_banks (rom s) = 1 then (addr - 0x8000) mod 16384 else addr - 0x8000)"]
    show ?thesis by simp
  qed
qed


text \<open>
  C10. For a cartridge of one or two PRG banks read in full, \<open>cpu_read\<close> returns on every
  address of the 16-bit space, with a value in 0..255; outside RAM, the controller ports,
  SRAM and PRG it returns 0, and a one-bank PRG is read modulo 16 KiB.
\<close>

theorem cpu_read_total:
  assumes "nes_ok s" and "0 \<le> addr" and "addr \<le> 0xFFFF"
  shows "\<exists>v s'. cpu_read s addr = Inr (v, s') \<and> 0 \<le> v \<and> v \<le> 255 \<and>
           (0x2000 \<le> addr \<and> addr \<le> 0x5FFF \<and> addr \<noteq> 0x4016 \<and> addr \<noteq> 0x4017 \<longrightarrow> v = 0) \<and>
           (prg_banks (rom s) = 1 \<and> 0x8000 \<le> addr \<longrightarrow>
              v = uint (prg s ! nat ((addr - 0x8000) mod (16 * 1024))))"
  using assms by (rule cpu_read_regions)

theorem cpu_read_total_witness:
  "nes_ok (NES_new horizontal_rom) \<and>
   (\<exists>s'. cpu_read (NES_new horizontal_rom) 0x5000 = Inr (0, s')) \<and>
   (\<exists>v s'. cpu_read (NES_new horizontal_rom) 0xFFFC = Inr (v, s') \<and>
      v = uint (prg (NES_new horizontal_rom) ! nat ((0xFFFC - 0x8000) mod (16 * 1024))))"
proof -
  have b: "prg_banks (rom (NES_new horizontal_rom)) = 1"
    by (simp add: NES_new_def horizontal_rom_def)
  from cpu_read_total [OF nes_ok_new, of "0x5000"]
  have 1: "\<exists>s'. cpu_read (NES_new horizontal_rom) 0x5000 = Inr (0, s')" by auto
  from cpu_read_total [OF nes_ok_new, of "0xFFFC"] b
  have 2: "\<exists>v s'. cpu_read (NES_new horizontal_rom) 0xFFFC = Inr (v, s') \<and>
      v = uint (prg (NES_new horizontal_rom) ! nat ((0xFFFC - 0x8000) mod (16 * 1024)))" by auto
  from nes_ok_new 1 2 show ?thesis by blast
qed

section \<open>Properties of the controller ports\<close>

lemma read_n_port:
  assumes "idx < 2"
  shows "length (controller_shift s) = 2 \<Longrightarrow>
    \<exists>vs s'. read_n n (0x4016 + int idx) s = Inr (vs, s') \<and>
      length (controller_shift s') = 2 \<and>
      controller_shift s' ! idx = drop_bit n (controller_shift s ! idx) \<and>
      length vs = n \<and>
      (\<forall>k < n. vs ! k = ((drop_bit k (controller_shift s ! idx)) AND 1) OR 0x40)"
proof (induction n arbitrary: s)
  case 0
  then show ?case by simp
next
  case (Suc n)
  let ?c = "controller_shift s ! idx"
  let ?s1 = "s\<lparr>controller_shift := (controller_shift s)[idx := drop_bit 1 ?c]\<rparr>"
  have r: "cpu_read s (0x4016 + int idx) = Inr ((?c AND 1) OR 0x40, ?s1)"
    using cpu_read_port [OF Suc.prems assms] .
  have l1: "length (controller_shift ?s1) = 2" using Suc.prems by simp
  have c1: "controller_shift ?s1 ! idx = drop_bit 1 ?c" using Suc.prems assms by simp
  from Suc.IH [OF l1] obtain vs s' where
    ih: "read_n n (0x4016 + int idx) ?s1 = Inr (vs, s')" "length (controller_shift s') = 2"
        "controller_shift s' ! idx = drop_bit n (controller_shift ?s1 ! idx)" "length vs = n"
        "\<forall>k < n. vs ! k = ((drop_bit k (controller_shift ?s1 ! idx)) AND 1) OR 0x40"
    by blast
  have e: "read_n (Suc n) (0x4016 + int idx) s = Inr (((?c AND 1) OR 0x40) # vs, s')"
    by (simp only: read_n.simps r ih(1) bnd_Inr prod.case)
  have sh: "controller_shift s' ! idx = drop_bit (Suc n) ?c"
    using ih(3) Suc.prems assms by (simp add: drop_bit_drop_bit)
  have vals: "\<forall>k < Suc n. (((?c AND 1) OR 0x40) # vs) ! k = ((drop_bit k ?c) AND 1) OR 0x40"
  proof (intro allI impI)
    fix k assume k: "k < Suc n"
    show "(((?c AND 1) OR 0x40) # vs) ! k = ((drop_bit k ?c) AND 1) OR 0x40"
    proof (cases k)
      case 0
      then show ?thesis by simp
    next
      case (Suc j)
      with k ih(5) Suc.prems assms show ?thesis by (simp add: drop_bit_drop_bit)
    qed
  qed
  from e ih(2) sh ih(4) vals show ?case by simp
qed

lemma cpu_write_strobe_high:
  "length (controller_shift s) = 2 \<Longrightarrow> length (controller_state s) = 2 \<Longrightarrow>
   cpu_write s 0x4016 1 =
     Inr (s\<lparr>controller_strobe := 1,
            controller_shift := (controller_shift s)[0 := controller_state s ! 0, 1 := controller_state s ! 1]\<rparr>)"
  by (simp add: cpu_write_def py_get_def py_set_def py_index_def bnd_def Let_def)

lemma cpu_write_strobe_low:
  "cpu_write s 0x4016 0 = Inr (s\<lparr>controller_strobe := 0\<rparr>)"
  by (simp add: cpu_write_def Let_def)

lemma drop_bit_byte: "0 \<le> c \<Longrightarrow> c \<le> 255 \<Longrightarrow> 8 \<le> n \<Longrightarrow> drop_bit n (c::int) = 0"
proof -
  assume a: "0 \<le> c" "c \<le> 255" "8 \<le> n"
  have "(2::int) ^ 8 \<le> 2 ^ n" using a(3) by (rule power_increasing) simp
  with a(1,2) have "c < 2 ^ n" by simp
  with a(1) show ?thesis by (simp add: drop_bit_eq_div)
qed

lemma latch_then_read_drained:
  assumes "length (controller_state s) = 2" and "length (controller_shift s) = 2"
    and "idx < 2" and "0 \<le> controller_state s ! idx" and "controller_state s ! idx \<le> 255"
    and "8 \<le> n"
  shows "latch_then_read n (0x4016 + int idx) s = Inr 0x40"
proof -
  let ?s1 = "s\<lparr>controller_strobe := 1,
            controller_shift := (controller_shift s)[0 := controller_state s ! 0, 1 := controller_state s ! 1]\<rparr>"
  let ?s2 = "?s1\<lparr>controller_strobe := 0\<rparr>"
  have w1: "cpu_write s 0x4016 1 = Inr ?s1" using assms(1,2) by (simp add: cpu_write_strobe_high)
  have w2: "cpu_write ?s1 0x4016 0 = Inr ?s2" by (rule cpu_write_strobe_low)
  have l2: "length (controller_shift ?s2) = 2" using assms(2) by simp
  have c2: "controller_shift ?s2 ! idx = controller_state s ! idx"
  proof -
    from assms(3) consider "idx = 0" | "idx = 1" by linarith
    then show ?thesis using assms(2) by cases simp_all
  qed
  from read_n_port [OF assms(3) l2, of n] obtain vs s3 where
    r: "read_n n (0x4016 + int idx) ?s2 = Inr (vs, s3)" "length (controller_shift s3) = 2"
       "controller_shift s3 ! idx = drop_bit n (controller_shift ?s2 ! idx)"
    by blast
  have z: "controller_shift s3 ! idx = 0"
    using r(3) c2 drop_bit_byte [OF assms(4,5,6)] by simp
  have "\<exists>s4. cpu_read s3 (0x4016 + int idx) = Inr (0x40, s4)"
    using cpu_read_port [OF r(2) assms(3)] z by simp
  then obtain s4 where r4: "cpu_read s3 (0x4016 + int idx) = Inr (0x40, s4)" ..
  show ?thesis
    unfolding latch_then_read_def by (simp only: w1 w2 r(1) r4 bnd_Inr prod.case)
qed


text \<open>
  C6, as the code has it. The shift register is shifted right with nothing shifted in:
  after the buttons are latched (strobe written 1 then 0) and eight or more reads of the
  port, every further read returns \<open>0x40\<close>, that is 0 in bit 0, for any latched state of
  eight buttons.
\<close>

theorem controller_reads_zero_after_eight:
  assumes "length (controller_state s) = 2" and "length (controller_shift s) = 2"
    and "idx < 2" and "0 \<le> controller_state s ! idx" and "controller_state s ! idx \<le> 255"
    and "8 \<le> n"
  shows "latch_then_read n (0x4016 + int idx) s = Inr 0x40"
  using assms by (rule latch_then_read_drained)

theorem controller_reads_zero_after_eight_witness:
  "latch_then_read 9 0x4017 pressed_nes = Inr 0x40"
proof -
  have "latch_then_read 9 (0x4016 + int 1) pressed_nes = Inr 0x40"
    by (rule controller_reads_zero_after_eight)
       (simp_all add: pressed_nes_def NES_new_def)
  then show ?thesis by simp
qed

text \<open>
  The claim as stated fails: with all eight buttons of controller 1 held and latched, the
  ninth read of \<open>$4016\<close> returns \<open>0x40\<close>, whose bit 0 is 0.
\<close>

theorem controller_ninth_read_bit0_clear:
  "latch_then_read 8 0x4016 pressed_nes = Inr 0x40 \<and> (0x40 :: int) AND 1 = 0"
proof -
  have "latch_then_read 8 (0x4016 + int 0) pressed_nes = Inr 0x40"
    by (rule latch_then_read_drained) (simp_all add: pressed_nes_def NES_new_def)
  then show ?thesis by simp
qed

section \<open>The CPU keeps the machine well-formed\<close>


















lemma and_ff_range: "0 \<le> (a::int) AND 0xFF \<and> a AND 0xFF \<le> 255"
proof -
  have "a AND 0xFF \<le> 0xFF" by (rule AND_upper2) simp
  then show ?thesis by simp
qed




lemma ba_set_ok: "0 \<le> i \<Longrightarrow> i < int (length xs) \<Longrightarrow> 0 \<le> v \<Longrightarrow> v \<le> 255 \<Longrightarrow>
   ba_set xs i v = Inr (xs[nat i := word_of_int v])"
  by (simp add: ba_set_def py_index_def)





















section \<open>Unimplemented opcodes\<close>






lemma exec_opcode_fallback:
  "opcode \<notin> set implemented_opcodes \<Longrightarrow> exec_opcode opcode s = tick 2 s"
  by (simp add: exec_opcode_def implemented_opcodes_def)

lemma sbc_not_implemented: "opcode \<in> set sbc_opcodes \<Longrightarrow> opcode \<notin> set implemented_opcodes"
  by (auto simp: sbc_opcodes_def implemented_opcodes_def)

lemma cpu_read_cpu: "cpu_read s a = Inr (v, s') \<Longrightarrow> cpu s' = cpu s"
  unfolding cpu_read_def Let_def bnd_def
  by (simp split: if_splits sum.splits) auto

lemma fetch_byte_cpu:
  assumes "fetch_byte s = Inr (b, s1)"
  shows "cpu s1 = (cpu s)\<lparr>cpu_PC := (cpu_PC (cpu s) + 1) AND 0xFFFF\<rparr>"
proof (cases "cpu_read s (cpu_PC (cpu s))")
  case (Inl e)
  with assms show ?thesis by (simp add: fetch_byte_def bnd_def)
next
  case (Inr x)
  obtain v s' where x: "x = (v, s')" by (cases x)
  from cpu_read_cpu [of s _ v s'] Inr x have "cpu s' = cpu s" by simp
  with assms Inr x show ?thesis by (auto simp: fetch_byte_def bnd_def set_PC_def)
qed

text \<open>
  C3, as the code has it. \<open>step\<close> tests for 42 opcodes only. Any other opcode, each of the
  eight SBC opcodes among them, runs the fallback: 2 cycles, the state as it is after the
  opcode fetch (the program counter one further, the operand not consumed), so \<open>A\<close> and the
  flags are unchanged.
\<close>

theorem step_sbc_is_nop:
  assumes "fetch_byte s = Inr (opcode, s1)"
    and "opcode \<in> set sbc_opcodes \<or> opcode \<notin> set implemented_opcodes"
  shows "step s = Inr (2, s1\<lparr>cpu := (cpu s1)\<lparr>cpu_cycles := cpu_cycles (cpu s1) + 2\<rparr>\<rparr>) \<and>
         cpu s1 = (cpu s)\<lparr>cpu_PC := (cpu_PC (cpu s) + 1) AND 0xFFFF\<rparr>"
proof -
  from assms(2) have "opcode \<notin> set implemented_opcodes"
    using sbc_not_implemented by blast
  then have "exec_opcode opcode s1 = tick 2 s1" by (rule exec_opcode_fallback)
  then have "step s = tick 2 s1" using assms(1) by (simp add: step_def bnd_def)
  with fetch_byte_cpu [OF assms(1)] show ?thesis by (simp add: tick_def)
qed

lemma sbc_fetch: "fetch_byte sbc_state = Inr (0xE9, set_PC 1 sbc_state)"
  by (simp add: fetch_byte_def sbc_state_def NES_new_def cpu_read_def ba_get_def py_index_def
      bnd_def set_PC_def)

theorem step_sbc_is_nop_witness:
  "\<exists>s'. step sbc_state = Inr (2, s') \<and> cpu_A (cpu s') = 5 \<and> cpu_PC (cpu s') = 1"
proof -
  have "(0xE9::int) \<in> set sbc_opcodes \<or> 0xE9 \<notin> set implemented_opcodes"
    by (simp add: sbc_opcodes_def)
  from step_sbc_is_nop [OF sbc_fetch this] show ?thesis
    by (simp add: set_PC_def sbc_state_def)
qed

text \<open>
  The claim as stated fails: \<open>SBC #$01\<close> with \<open>A = 5\<close> and the carry set leaves \<open>A = 5\<close> and
  \<open>P\<close> as it was, where \<open>A + (M XOR 0xFF) + C\<close> has the low byte 4.
\<close>

theorem sbc_leaves_accumulator:
  "\<not> isl (step sbc_state) \<and> cpu_A (cpu (snd (projr (step sbc_state)))) = 5 \<and>
   cpu_P (cpu (snd (projr (step sbc_state)))) = 0x25 \<and>
   (5 + (1 XOR 0xFF) + 1) AND 0xFF = (4::int)"
proof -
  have "exec_opcode 0xE9 (set_PC 1 sbc_state) = tick 2 (set_PC 1 sbc_state)"
    by (rule exec_opcode_fallback) (simp add: implemented_opcodes_def)
  then have "step sbc_state = tick 2 (set_PC 1 sbc_state)"
    by (simp add: step_def sbc_fetch bnd_def)
  then show ?thesis by (simp add: tick_def set_PC_def sbc_state_def)
qed

section \<open>The NMI sequence\<close>




lemma stack_addr:
  assumes "0 \<le> sp" and "sp \<le> 255"
  shows "(0x100 + sp) AND 0xFFFF = 0x100 + (sp::int)" and "(0x100 + sp) AND 0x7FF = 0x100 + sp"
proof -
  have "take_bit 16 (0x100 + sp) = 0x100 + sp" using assms by (simp add: take_bit_int_eq_self)
  then show "(0x100 + sp) AND 0xFFFF = 0x100 + sp"
    by (simp add: take_bit_eq_mask mask_eq_exp_minus_1)
  have "take_bit 11 (0x100 + sp) = 0x100 + sp" using assms by (simp add: take_bit_int_eq_self)
  then show "(0x100 + sp) AND 0x7FF = 0x100 + sp"
    by (simp add: take_bit_eq_mask mask_eq_exp_minus_1)
qed

lemma push_stack:
  assumes "length (ram s) = 0x800" and "0 \<le> cpu_SP (cpu s)" and "cpu_SP (cpu s) \<le> 255"
  shows "push s v =
     Inr (s\<lparr>ram := (ram s)[nat (0x100 + cpu_SP (cpu s)) := word_of_int (v AND 0xFF)],
            cpu := (cpu s)\<lparr>cpu_SP := (cpu_SP (cpu s) - 1) AND 0xFF\<rparr>\<rparr>)"
proof -
  let ?sp = "cpu_SP (cpu s)"
  note a = stack_addr [OF assms(2,3)]
  have w: "cpu_write s (0x100 + ?sp) (v AND 0xFF) =
      Inr (s\<lparr>ram := (ram s)[nat (0x100 + ?sp) := word_of_int (v AND 0xFF)]\<rparr>)"
    using assms and_ff_range [of v]
    by (simp add: cpu_write_def Let_def a ba_set_ok bnd_Inr)
  show ?thesis
    by (simp add: push_def w bnd_Inr set_SP_def)
qed

lemma and_ff_le: "(a::int) AND 0xFF \<le> 255"
  using and_ff_range [of a] by simp

lemma prg_offset_read:
  assumes "nes_ok s" and "0x8000 \<le> a" and "a \<le> 0xFFFF"
    and "rom t = rom s" and "prg t = prg s"
  shows "cpu_read t a = Inr (fst (projr (cpu_read s a)), t)"
proof -
  have i: "0 \<le> (if prg_banks (rom s) = 1 then (a - 0x8000) mod 16384 else a - 0x8000)"
     "(if prg_banks (rom s) = 1 then (a - 0x8000) mod 16384 else a - 0x8000) < int (length (prg s))"
    using assms(1-3) by (auto simp: nes_ok_def)
  show ?thesis
    using assms(2-5) i
    by (auto simp add: cpu_read_def mask16_id ba_get_ok bnd_def)
qed

lemma service_nmi_effect:
  assumes "nes_ok s" and "0 \<le> cpu_SP (cpu s)" and "cpu_SP (cpu s) \<le> 255"
  shows "\<exists>lo hi.
     cpu_read s 0xFFFA = Inr (lo, s) \<and> cpu_read s 0xFFFB = Inr (hi, s) \<and>
     service_nmi s =
       Inr (s\<lparr>nmi_pending := False,
              ram := (ram s)
                [nat (0x100 + cpu_SP (cpu s)) := word_of_int ((drop_bit 8 (cpu_PC (cpu s))) AND 0xFF),
                 nat (0x100 + ((cpu_SP (cpu s) - 1) AND 0xFF)) := word_of_int (cpu_PC (cpu s) AND 0xFF),
                 nat (0x100 + ((((cpu_SP (cpu s) - 1) AND 0xFF) - 1) AND 0xFF)) :=
                   word_of_int ((cpu_P (cpu s) AND (NOT 0x10)) AND 0xFF)],
              cpu := (cpu s)
                \<lparr>cpu_SP := ((((((cpu_SP (cpu s) - 1) AND 0xFF) - 1) AND 0xFF) - 1) AND 0xFF),
                 cpu_P := cpu_P (cpu s) OR 0x04,
                 cpu_PC := (push_bit 8 hi) OR lo\<rparr>\<rparr>)"
proof -
  define lo where "lo = fst (projr (cpu_read s 0xFFFA))"
  define hi where "hi = fst (projr (cpu_read s 0xFFFB))"
  have len: "length (ram s) = 0x800" using assms(1) by (simp add: nes_ok_def)
  have rd: "cpu_read t 0xFFFA = Inr (lo, t)" "cpu_read t 0xFFFB = Inr (hi, t)"
    if "rom t = rom s" "prg t = prg s" for t
    using prg_offset_read [OF assms(1) _ _ that] by (simp_all add: lo_def hi_def)
  have r0: "cpu_read s 0xFFFA = Inr (lo, s)" "cpu_read s 0xFFFB = Inr (hi, s)"
    using rd [of s] by simp_all
  have "service_nmi s =
       Inr (s\<lparr>nmi_pending := False,
              ram := (ram s)
                [nat (0x100 + cpu_SP (cpu s)) := word_of_int ((drop_bit 8 (cpu_PC (cpu s))) AND 0xFF),
                 nat (0x100 + ((cpu_SP (cpu s) - 1) AND 0xFF)) := word_of_int (cpu_PC (cpu s) AND 0xFF),
                 nat (0x100 + ((((cpu_SP (cpu s) - 1) AND 0xFF) - 1) AND 0xFF)) :=
                   word_of_int ((cpu_P (cpu s) AND (NOT 0x10)) AND 0xFF)],
              cpu := (cpu s)
                \<lparr>cpu_SP := ((((((cpu_SP (cpu s) - 1) AND 0xFF) - 1) AND 0xFF) - 1) AND 0xFF),
                 cpu_P := cpu_P (cpu s) OR 0x04,
                 cpu_PC := (push_bit 8 hi) OR lo\<rparr>\<rparr>)"
    using len assms(2,3)
    by (simp add: service_nmi_def Let_def push_stack bnd_Inr and_ff_le rd set_flag_def set_P_def
        set_PC_def FLAG_I_def and.assoc)
  with r0 show ?thesis by blast
qed

text \<open>
  C5, as the code has it. Servicing a pending NMI clears the pending flag, pushes the high
  byte of \<open>PC\<close>, then the low byte, then \<open>P & ~0x10 & 0xFF\<close> (bit 4 cleared, bit 5 as it
  stands in \<open>P\<close>), sets \<open>I\<close>, and loads \<open>PC\<close> from the little-endian word the bus returns
  at \<open>$FFFA\<close> and \<open>$FFFB\<close>.
\<close>

theorem nmi_sequence:
  assumes "nes_ok s" and "0 \<le> cpu_SP (cpu s)" and "cpu_SP (cpu s) \<le> 255"
  shows "\<exists>lo hi.
     cpu_read s 0xFFFA = Inr (lo, s) \<and> cpu_read s 0xFFFB = Inr (hi, s) \<and>
     service_nmi s =
       Inr (s\<lparr>nmi_pending := False,
              ram := (ram s)
                [nat (0x100 + cpu_SP (cpu s)) := word_of_int ((drop_bit 8 (cpu_PC (cpu s))) AND 0xFF),
                 nat (0x100 + ((cpu_SP (cpu s) - 1) AND 0xFF)) := word_of_int (cpu_PC (cpu s) AND 0xFF),
                 nat (0x100 + ((((cpu_SP (cpu s) - 1) AND 0xFF) - 1) AND 0xFF)) :=
                   word_of_int ((cpu_P (cpu s) AND (NOT 0x10)) AND 0xFF)],
              cpu := (cpu s)
                \<lparr>cpu_SP := ((((((cpu_SP (cpu s) - 1) AND 0xFF) - 1) AND 0xFF) - 1) AND 0xFF),
                 cpu_P := cpu_P (cpu s) OR 0x04,
                 cpu_PC := (push_bit 8 hi) OR lo\<rparr>\<rparr>)"
  using assms by (rule service_nmi_effect)

theorem nmi_sequence_witness:
  "nes_ok (NES_new horizontal_rom) \<and>
   \<not> isl (service_nmi (NES_new horizontal_rom)) \<and>
   ram (projr (service_nmi (NES_new horizontal_rom))) ! 0x1FB = 0x24 \<and>
   cpu_SP (cpu (projr (service_nmi (NES_new horizontal_rom)))) = 0xFA"
  using nmi_sequence [OF nes_ok_new] nes_ok_new by (auto simp add: NES_new_def)

text \<open>
  The claim as stated fails: with \<open>P = 0x04\<close> the status byte pushed is \<open>0x04\<close>, where
  \<open>P & ~0x10 | 0x20\<close> is \<open>0x24\<close>.
\<close>

theorem nmi_pushes_status_without_bit5:
  "\<not> isl (service_nmi nmi_state) \<and>
   ram (projr (service_nmi nmi_state)) ! 0x1FB = 0x04 \<and>
   ((0x04 AND (NOT 0x10)) OR 0x20 :: int) = 0x24"
proof -
  have ok: "nes_ok nmi_state" by (simp add: nmi_state_def nes_ok_def NES_new_def PPU_init_def horizontal_rom_def)
  from service_nmi_effect [OF ok] show ?thesis
    by (auto simp add: nmi_state_def NES_new_def)
qed

section \<open>Properties of the background pass\<close>


lemma paintsI:
  "(\<And>surf. \<exists>surf'. F surf = Inr surf' \<and> (\<forall>z. surf' z = (if z \<in> D then V z else surf z)))
   \<Longrightarrow> paints F D V"
  by (simp add: paints_def)

lemma paintsD:
  "paints F D V \<Longrightarrow> \<exists>surf'. F surf = Inr surf' \<and> (\<forall>z. surf' z = (if z \<in> D then V z else surf z))"
  by (simp add: paints_def)

lemma for_each_paints:
  "(\<And>i. i \<in> set xs \<Longrightarrow> paints (body i) (D i) V) \<Longrightarrow>
   paints (for_each xs body) (\<Union>i \<in> set xs. D i) V"
proof (induction xs)
  case Nil
  show ?case by (rule paintsI) simp
next
  case (Cons i xs)
  have hd: "paints (body i) (D i) V" using Cons.prems by simp
  have tl: "paints (for_each xs body) (\<Union>j \<in> set xs. D j) V" using Cons by simp
  show ?case
  proof (rule paintsI)
    fix surf
    from paintsD [OF hd, of surf] obtain s1 where
      s1: "body i surf = Inr s1" "\<forall>z. s1 z = (if z \<in> D i then V z else surf z)" by blast
    from paintsD [OF tl, of s1] obtain s2 where
      s2: "for_each xs body s1 = Inr s2"
          "\<forall>z. s2 z = (if z \<in> (\<Union>j \<in> set xs. D j) then V z else s1 z)" by blast
    have "for_each (i # xs) body surf = Inr s2" by (simp add: s1(1) s2(1) bnd_Inr)
    moreover have "\<forall>z. s2 z = (if z \<in> (\<Union>j \<in> set (i # xs). D j) then V z else surf z)"
      using s1(2) s2(2) by auto
    ultimately show "\<exists>surf'. for_each (i # xs) body surf = Inr surf' \<and>
       (\<forall>z. surf' z = (if z \<in> (\<Union>j \<in> set (i # xs). D j) then V z else surf z))" by blast
  qed
qed


lemma py_get_ok: "0 \<le> i \<Longrightarrow> i < int (length xs) \<Longrightarrow> py_get xs i = Inr (xs ! nat i)"
  by (simp add: py_get_def py_index_def)

lemma and_3_range: "0 \<le> (a::int) AND 3 \<and> a AND 3 \<le> 3"
proof -
  have "a AND 3 \<le> 3" by (rule AND_upper2) simp
  then show ?thesis by simp
qed

lemma length_NES_PALETTE: "length NES_PALETTE = 48"
  by (simp add: NES_PALETTE_def)

lemma PPU_read_vram:
  assumes "length (ppu_vram p) = 2048" and "k < 2048"
  shows "PPU_read p (0x2000 + int k) = Inr (uint (ppu_vram p ! k))"
proof -
  have a: "(0x2000 + int k) AND 0x3FFF = 0x2000 + int k"
  proof -
    have "take_bit 14 (0x2000 + int k) = 0x2000 + int k"
      using assms(2) by (simp add: take_bit_int_eq_self)
    then show ?thesis by (simp add: take_bit_eq_mask mask_eq_exp_minus_1)
  qed
  have b: "(int k) AND 0x7FF = int k"
  proof -
    have "take_bit 11 (int k) = int k"
      using assms(2) by (simp add: take_bit_int_eq_self)
    then show ?thesis by (simp add: take_bit_eq_mask mask_eq_exp_minus_1)
  qed
  show ?thesis
    using assms by (simp add: PPU_read_def Let_def a b ba_get_ok)
qed

lemma PPU_read_palette:
  assumes "length (ppu_palette p) = 32" and "k < 32"
  shows "PPU_read p (0x3F00 + int k) = Inr (uint (ppu_palette p ! k))"
proof -
  have a: "(0x3F00 + int k) AND 0x3FFF = 0x3F00 + int k"
  proof -
    have "take_bit 14 (0x3F00 + int k) = 0x3F00 + int k"
      using assms(2) by (simp add: take_bit_int_eq_self)
    then show ?thesis by (simp add: take_bit_eq_mask mask_eq_exp_minus_1)
  qed
  show ?thesis
    using assms by (simp add: PPU_read_def Let_def a ba_get_ok)
qed

lemma draw_bg_pixel_paints:
  assumes pal: "length (ppu_palette p) = 32"
    and tile: "length tile = 8" "\<forall>r \<in> set tile. length r = 8"
    and t: "ty < 8" "tx < 8"
    and pid: "0 \<le> pid" "pid \<le> 3"
    and V: "V (int col * 8 + int tx, int row * 8 + int ty) =
              NES_PALETTE ! nat ((uint (ppu_palette p ! nat (pid * 4 + ((tile ! ty ! tx) AND 0x03))) AND 0x3F) mod 48)"
  shows "paints (draw_bg_pixel p tile (0x3F00 + pid * 4) row col ty tx)
           {(int col * 8 + int tx, int row * 8 + int ty)} V"
proof (rule paintsI)
  fix surf
  let ?pidx = "(tile ! ty ! tx) AND 0x03"
  let ?k = "nat (pid * 4 + ?pidx)"
  let ?c = "uint (ppu_palette p ! ?k)"
  let ?ci = "(?c AND 0x3F) mod 48"
  have g1: "py_get tile (int ty) = Inr (tile ! ty)" using tile(1) t(1) by (simp add: py_get_ok)
  have "length (tile ! ty) = 8" using tile t(1) by simp
  then have g2: "py_get (tile ! ty) (int tx) = Inr (tile ! ty ! tx)" using t(2) by (simp add: py_get_ok)
  have b: "0 \<le> ?pidx" "?pidx \<le> 3"
    using and_3_range [of "tile ! ty ! tx"] by blast+
  have k: "?k < 32" "int ?k = pid * 4 + ?pidx"
    using pid b by linarith+
  have rd: "PPU_read p (0x3F00 + pid * 4 + ?pidx) = Inr ?c"
    using PPU_read_palette [OF pal k(1)] k(2) by (simp add: add.assoc)
  have ci: "0 \<le> ?ci" "?ci < 48" by simp_all
  have g3: "py_get NES_PALETTE ((?c AND 0x3F) mod int (length NES_PALETTE)) = Inr (NES_PALETTE ! nat ?ci)"
    using ci by (simp add: length_NES_PALETTE py_get_ok)
  have e: "draw_bg_pixel p tile (0x3F00 + pid * 4) row col ty tx surf =
      Inr (set_at surf (int col * 8 + int tx, int row * 8 + int ty) (NES_PALETTE ! nat ?ci))"
    unfolding draw_bg_pixel_def Let_def
    by (simp only: g1 g2 rd g3 bnd_Inr)
  show "\<exists>surf'. draw_bg_pixel p tile (0x3F00 + pid * 4) row col ty tx surf = Inr surf' \<and>
     (\<forall>z. surf' z = (if z \<in> {(int col * 8 + int tx, int row * 8 + int ty)} then V z else surf z))"
    using e V by (auto simp: set_at_def)
qed


lemma draw_bg_tile_paints:
  assumes vram: "length (ppu_vram p) = 2048" and pal: "length (ppu_palette p) = 32"
    and tiles: "tiles_ok tiles"
    and rc: "row < 30" "col < 32"
    and V: "\<And>ty tx. ty < 8 \<Longrightarrow> tx < 8 \<Longrightarrow>
              V (int col * 8 + int tx, int row * 8 + int ty) = bg_color p tiles row col ty tx"
  shows "paints (draw_bg_tile p tiles row col)
           (\<Union>ty \<in> set [0..<8]. \<Union>tx \<in> set [0..<8]. {(int col * 8 + int tx, int row * 8 + int ty)}) V"
proof (rule paintsI)
  fix surf
  let ?ti = "uint (ppu_vram p ! (row * 32 + col))"
  let ?tile = "tiles ! nat (?ti mod int (length tiles))"
  let ?attr = "uint (ppu_vram p ! (0x3C0 + (row div 4) * 8 + col div 4))"
  let ?pid = "(drop_bit (((row mod 4) div 2 * 2 + (col mod 4) div 2) * 2) ?attr) AND 0x03"
  let ?D = "\<Union>ty \<in> set [0..<8]. \<Union>tx \<in> set [0..<8]. {(int col * 8 + int tx, int row * 8 + int ty)}"
  have k1: "row * 32 + col < 2048" using rc by simp
  have rd1: "PPU_read p (0x2000 + int row * 32 + int col) = Inr ?ti"
    using PPU_read_vram [OF vram k1] by (simp add: add.assoc)
  have ne: "tiles \<noteq> []" using tiles by (simp add: tiles_ok_def)
  then have mx: "max 1 (int (length tiles)) = int (length tiles)"
    by (cases tiles) simp_all
  have ix: "0 \<le> ?ti mod int (length tiles)" "?ti mod int (length tiles) < int (length tiles)"
    using ne by simp_all
  have g: "py_get tiles (?ti mod max 1 (int (length tiles))) = Inr ?tile"
    unfolding mx using ix by (rule py_get_ok)
  have "nat (?ti mod int (length tiles)) < length tiles" using ix by linarith
  then have mem: "?tile \<in> set tiles" by (rule nth_mem)
  have tl: "length ?tile = 8" "\<forall>r \<in> set ?tile. length r = 8"
    using tiles mem by (simp_all add: tiles_ok_def)
  have k2: "0x3C0 + (row div 4) * 8 + col div 4 < 2048" using rc by simp
  have rd2: "PPU_read p (0x23C0 + int (row div 4) * 8 + int (col div 4)) = Inr ?attr"
    using PPU_read_vram [OF vram k2] by (simp add: add.assoc)
  have pid: "0 \<le> ?pid" "?pid \<le> 3"
    using and_3_range [of "drop_bit (((row mod 4) div 2 * 2 + (col mod 4) div 2) * 2) ?attr"]
    by blast+
  have e: "draw_bg_tile p tiles row col surf =
      for_each [0..<8] (\<lambda>ty. for_each [0..<8] (\<lambda>tx.
        draw_bg_pixel p ?tile (0x3F00 + ?pid * 4) row col ty tx)) surf"
    unfolding draw_bg_tile_def Let_def
    by (simp only: rd1 g rd2 bnd_Inr)
  have px: "paints (draw_bg_pixel p ?tile (0x3F00 + ?pid * 4) row col ty tx)
              {(int col * 8 + int tx, int row * 8 + int ty)} V"
    if "ty < 8" "tx < 8" for ty tx
  proof (rule draw_bg_pixel_paints [OF pal tl that pid])
    show "V (int col * 8 + int tx, int row * 8 + int ty) =
       NES_PALETTE ! nat ((uint (ppu_palette p ! nat (?pid * 4 + ((?tile ! ty ! tx) AND 0x03))) AND 0x3F) mod 48)"
      using V [OF that] by (simp add: bg_color_def Let_def)
  qed
  have rowp: "paints (for_each [0..<8] (\<lambda>tx. draw_bg_pixel p ?tile (0x3F00 + ?pid * 4) row col ty tx))
                (\<Union>tx \<in> set [0..<8]. {(int col * 8 + int tx, int row * 8 + int ty)}) V"
    if "ty < 8" for ty
    by (rule for_each_paints) (use that px in simp)
  have "paints (for_each [0..<8] (\<lambda>ty. for_each [0..<8] (\<lambda>tx.
        draw_bg_pixel p ?tile (0x3F00 + ?pid * 4) row col ty tx))) ?D V"
    by (rule for_each_paints) (use rowp in simp)
  from paintsD [OF this, of surf] e
  show "\<exists>surf'. draw_bg_tile p tiles row col surf = Inr surf' \<and>
     (\<forall>z. surf' z = (if z \<in> ?D then V z else surf z))"
    by simp
qed

lemma decode_all_result:
  assumes "\<forall>i \<in> set xs. (i + 1) * 16 \<le> length chr_bytes"
  shows "\<exists>ts. decode_all xs chr_bytes = Inr ts \<and> length ts = length xs \<and>
           (\<forall>k < length xs. length (ts ! k) = 8 \<and>
              (\<forall>y < 8. length (ts ! k ! y) = 8 \<and>
                 (\<forall>x < 8. ts ! k ! y ! x =
                    tile_pixel (uint (chr_bytes ! (xs ! k * 16 + y)))
                               (uint (chr_bytes ! (xs ! k * 16 + 8 + y))) x)))"
  using assms
proof (induction xs)
  case Nil
  then show ?case by simp
next
  case (Cons i xs)
  let ?sl = "py_slice chr_bytes (i * 16) ((i + 1) * 16)"
  have i: "(i + 1) * 16 \<le> length chr_bytes" using Cons.prems by simp
  then have l: "length ?sl = 16" by (simp add: py_slice_def)
  have nth: "?sl ! j = chr_bytes ! (i * 16 + j)" if "j < 16" for j
    using that i by (simp add: py_slice_def)
  from decode_tile_8x8_result [OF l] obtain t where
    t: "decode_tile_8x8 ?sl = Inr t" "length t = 8"
       "\<forall>y < 8. length (t ! y) = 8 \<and>
          (\<forall>x < 8. t ! y ! x = tile_pixel (uint (?sl ! y)) (uint (?sl ! (8 + y))) x)"
    by blast
  from Cons.IH Cons.prems obtain ts where
    ts: "decode_all xs chr_bytes = Inr ts" "length ts = length xs"
        "\<forall>k < length xs. length (ts ! k) = 8 \<and>
              (\<forall>y < 8. length (ts ! k ! y) = 8 \<and>
                 (\<forall>x < 8. ts ! k ! y ! x =
                    tile_pixel (uint (chr_bytes ! (xs ! k * 16 + y)))
                               (uint (chr_bytes ! (xs ! k * 16 + 8 + y))) x))"
    by auto
  have e: "decode_all (i # xs) chr_bytes = Inr (t # ts)"
    by (simp only: decode_all.simps t(1) ts(1) bnd_Inr)
  have "\<forall>k < length (i # xs). length ((t # ts) ! k) = 8 \<and>
              (\<forall>y < 8. length ((t # ts) ! k ! y) = 8 \<and>
                 (\<forall>x < 8. (t # ts) ! k ! y ! x =
                    tile_pixel (uint (chr_bytes ! ((i # xs) ! k * 16 + y)))
                               (uint (chr_bytes ! ((i # xs) ! k * 16 + 8 + y))) x))"
  proof (intro allI impI)
    fix k assume k: "k < length (i # xs)"
    show "length ((t # ts) ! k) = 8 \<and>
              (\<forall>y < 8. length ((t # ts) ! k ! y) = 8 \<and>
                 (\<forall>x < 8. (t # ts) ! k ! y ! x =
                    tile_pixel (uint (chr_bytes ! ((i # xs) ! k * 16 + y)))
                               (uint (chr_bytes ! ((i # xs) ! k * 16 + 8 + y))) x))"
    proof (cases k)
      case 0
      have "tile_pixel (uint (?sl ! y)) (uint (?sl ! (8 + y))) x =
            tile_pixel (uint (chr_bytes ! (i * 16 + y))) (uint (chr_bytes ! (i * 16 + 8 + y))) x"
        if "y < 8" for y x
        using nth [of y] nth [of "8 + y"] that by (simp add: add.assoc)
      with t(2,3) show ?thesis by (simp add: 0)
    next
      case (Suc j)
      with k ts(3) show ?thesis by simp
    qed
  qed
  with e ts(2) show ?case by simp
qed


lemma render_background_pixels:
  assumes "ppu_ok p"
  shows "\<exists>tiles surf. render_background p = Inr (tiles, surf) \<and> tiles_ok tiles \<and>
     length tiles = length (ppu_chr p) div 16 \<and>
     (\<forall>k < length tiles. \<forall>y < 8. \<forall>x < 8.
        tiles ! k ! y ! x = tile_pixel (uint (ppu_chr p ! (k * 16 + y)))
                                       (uint (ppu_chr p ! (k * 16 + 8 + y))) x) \<and>
     (\<forall>row < 30. \<forall>col < 32. \<forall>ty < 8. \<forall>tx < 8.
        surf (int col * 8 + int tx, int row * 8 + int ty) = bg_color p tiles row col ty tx)"
proof -
  let ?n = "length (ppu_chr p) div 16"
  have vram: "length (ppu_vram p) = 2048" and pal: "length (ppu_palette p) = 32"
    and chr: "16 \<le> length (ppu_chr p)"
    using assms by (simp_all add: ppu_ok_def)
  let ?bgi = "uint (ppu_palette p ! 0)"
  have g0: "(if length (ppu_palette p) > 0 then ba_get (ppu_palette p) 0 else Inr 0) = Inr ?bgi"
    using pal by (simp add: ba_get_ok)
  have g1: "py_get NES_PALETTE (?bgi mod int (length NES_PALETTE)) = Inr (NES_PALETTE ! nat (?bgi mod 48))"
    by (simp add: length_NES_PALETTE py_get_ok)
  have "\<forall>i \<in> set [0..<?n]. (i + 1) * 16 \<le> length (ppu_chr p)"
  proof
    fix i assume "i \<in> set [0..<?n]"
    then have "i + 1 \<le> ?n" by simp
    then have "(i + 1) * 16 \<le> ?n * 16" by simp
    also have "\<dots> \<le> length (ppu_chr p)" by simp
    finally show "(i + 1) * 16 \<le> length (ppu_chr p)" .
  qed
  from decode_all_result [OF this] obtain tiles where
    ts: "decode_all [0..<?n] (ppu_chr p) = Inr tiles" "length tiles = ?n"
        "\<forall>k < ?n. length (tiles ! k) = 8 \<and>
              (\<forall>y < 8. length (tiles ! k ! y) = 8 \<and>
                 (\<forall>x < 8. tiles ! k ! y ! x =
                    tile_pixel (uint (ppu_chr p ! ([0..<?n] ! k * 16 + y)))
                               (uint (ppu_chr p ! ([0..<?n] ! k * 16 + 8 + y))) x))"
    by auto
  have n: "1 \<le> ?n" using chr by simp
  have tok: "tiles_ok tiles"
    unfolding tiles_ok_def
  proof (intro conjI ballI)
    show "tiles \<noteq> []" using ts(2) n by auto
  next
    fix t assume "t \<in> set tiles"
    then obtain k where k: "k < ?n" "t = tiles ! k" using ts(2) by (auto simp: in_set_conv_nth)
    with ts(3) show "length t = 8" by simp
    fix r assume "r \<in> set t"
    then obtain y where y: "y < length t" "r = t ! y" by (auto simp: in_set_conv_nth)
    with k ts(3) \<open>length t = 8\<close> show "length r = 8" by simp
  qed
  have px: "\<forall>k < length tiles. \<forall>y < 8. \<forall>x < 8.
        tiles ! k ! y ! x = tile_pixel (uint (ppu_chr p ! (k * 16 + y)))
                                       (uint (ppu_chr p ! (k * 16 + 8 + y))) x"
    using ts(2,3) by simp
  define V :: surface where
    "V = (\<lambda>(x, y). bg_color p tiles (nat (y div 8)) (nat (x div 8)) (nat (y mod 8)) (nat (x mod 8)))"
  have Vpos: "V (int col * 8 + int tx, int row * 8 + int ty) = bg_color p tiles row col ty tx"
    if "ty < 8" "tx < 8" for row col ty tx
    using that by (simp add: V_def)
  let ?Dt = "\<lambda>row col. \<Union>ty \<in> set [0..<8]. \<Union>tx \<in> set [0..<8].
                {(int col * 8 + int tx, int row * 8 + int ty)}"
  have tile_p: "paints (draw_bg_tile p tiles row col) (?Dt row col) V"
    if "row < 30" "col < 32" for row col
    by (rule draw_bg_tile_paints [OF vram pal tok that]) (rule Vpos)
  have row_p: "paints (for_each [0..<32] (\<lambda>col. draw_bg_tile p tiles row col))
                 (\<Union>col \<in> set [0..<32]. ?Dt row col) V"
    if "row < 30" for row
    by (rule for_each_paints) (use that tile_p in simp)
  have all_p: "paints (for_each [0..<30] (\<lambda>row. for_each [0..<32] (\<lambda>col. draw_bg_tile p tiles row col)))
                 (\<Union>row \<in> set [0..<30]. \<Union>col \<in> set [0..<32]. ?Dt row col) V"
    by (rule for_each_paints) (use row_p in simp)
  let ?fill = "\<lambda>pos :: int \<times> int. NES_PALETTE ! nat (?bgi mod 48)"
  from paintsD [OF all_p, of ?fill] obtain surf where
    surf: "for_each [0..<30] (\<lambda>row. for_each [0..<32] (\<lambda>col. draw_bg_tile p tiles row col)) ?fill
             = Inr surf"
          "\<forall>z. surf z = (if z \<in> (\<Union>row \<in> set [0..<30]. \<Union>col \<in> set [0..<32]. ?Dt row col)
                         then V z else ?fill z)"
    by blast
  have e: "render_background p = Inr (tiles, surf)"
    unfolding render_background_def Let_def
    by (simp only: g0 g1 ts(1) surf(1) bnd_Inr)
  have "\<forall>row < 30. \<forall>col < 32. \<forall>ty < 8. \<forall>tx < 8.
        surf (int col * 8 + int tx, int row * 8 + int ty) = bg_color p tiles row col ty tx"
  proof (intro allI impI)
    fix row col ty tx :: nat
    assume b: "row < 30" "col < 32" "ty < 8" "tx < 8"
    have m1: "(int col * 8 + int tx, int row * 8 + int ty) \<in> ?Dt row col"
      by (rule UN_I [of ty], use b in simp, rule UN_I [of tx], use b in simp, simp)
    have m2: "(int col * 8 + int tx, int row * 8 + int ty)
        \<in> (\<Union>col \<in> set [0..<32]. ?Dt row col)"
    proof (rule UN_I [of col])
      show "col \<in> set [0..<32]" using b by simp
      show "(int col * 8 + int tx, int row * 8 + int ty) \<in> ?Dt row col" by (rule m1)
    qed
    have "(int col * 8 + int tx, int row * 8 + int ty)
        \<in> (\<Union>row \<in> set [0..<30]. \<Union>col \<in> set [0..<32]. ?Dt row col)"
    proof (rule UN_I [of row])
      show "row \<in> set [0..<30]" using b by simp
      show "(int col * 8 + int tx, int row * 8 + int ty)
        \<in> (\<Union>col \<in> set [0..<32]. ?Dt row col)" by (rule m2)
    qed
    with surf(2) have "surf (int col * 8 + int tx, int row * 8 + int ty)
        = V (int col * 8 + int tx, int row * 8 + int ty)" by simp
    with Vpos [OF b(3,4)] show "surf (int col * 8 + int tx, int row * 8 + int ty)
        = bg_color p tiles row col ty tx" by simp
  qed
  with e tok ts(2) px show ?thesis by blast
qed

lemma bg_bad_ppu_ok: "ppu_ok bg_bad_ppu"
  by (simp add: ppu_ok_def bg_bad_ppu_def PPU_init_def horizontal_rom_def)

text \<open>
  C4. A background pixel of index 0 should keep the universal background colour, the colour
  of palette entry 0 that the frame is first filled with. The background loop has no test
  for index 0 (the sprite loop has one) and writes every pixel: on \<open>bg_bad_ppu\<close> the
  top-left pixel, of index 0 in a tile of subpalette 1, gets the colour of \<open>$3F04\<close>,
  \<open>(0, 30, 116)\<close>, where the universal background colour is \<open>(84, 84, 84)\<close>.
\<close>

theorem background_index0_uses_subpalette:
  "\<not> isl (render_background bg_bad_ppu) \<and>
   snd (projr (render_background bg_bad_ppu)) (0, 0) = (0, 30, 116) \<and>
   NES_PALETTE ! nat (uint (ppu_palette bg_bad_ppu ! 0) mod 48) = (84, 84, 84)"
proof -
  from render_background_pixels [OF bg_bad_ppu_ok] obtain tiles surf where
    r: "render_background bg_bad_ppu = Inr (tiles, surf)" "tiles_ok tiles"
       "length tiles = length (ppu_chr bg_bad_ppu) div 16"
       "\<forall>k < length tiles. \<forall>y < 8. \<forall>x < 8.
          tiles ! k ! y ! x = tile_pixel (uint (ppu_chr bg_bad_ppu ! (k * 16 + y)))
                                         (uint (ppu_chr bg_bad_ppu ! (k * 16 + 8 + y))) x"
       "\<forall>row < 30. \<forall>col < 32. \<forall>ty < 8. \<forall>tx < 8.
          surf (int col * 8 + int tx, int row * 8 + int ty) = bg_color bg_bad_ppu tiles row col ty tx"
    by blast
  have len: "length tiles = 512"
    using r(3) by (simp add: bg_bad_ppu_def PPU_init_def horizontal_rom_def)
  have t0: "tiles ! 0 ! 0 ! 0 = 0"
    using r(4) len by (simp add: bg_bad_ppu_def PPU_init_def horizontal_rom_def tile_pixel_def)
  have "surf (0, 0) = bg_color bg_bad_ppu tiles 0 0 0 0"
    using r(5) [rule_format, of 0 0 0 0] by simp
  also have "\<dots> = (0, 30, 116)"
    using t0 len by (simp add: bg_color_def bg_bad_ppu_def PPU_init_def NES_PALETTE_def)
  finally have s: "surf (0, 0) = (0, 30, 116)" .
  have f: "NES_PALETTE ! nat (uint (ppu_palette bg_bad_ppu ! 0) mod 48) = (84, 84, 84)"
    by (simp add: bg_bad_ppu_def PPU_init_def NES_PALETTE_def)
  from r(1) s f show ?thesis by simp
qed

section \<open>A frame runs to completion\<close>















lemma ppu_static_cpu_update: "ppu_static (s\<lparr>cpu := c\<rparr>) = ppu_static s"
  by (simp add: ppu_static_def)




























end
